theory Spec2Isabelle
  imports Complex_Main "HOL-Library.Char_ord" "HOL-Library.List_Lexorder"
begin

section \<open>Data model (app/models.py)\<close>

text \<open>
  Python floats are modelled as exact reals, Python ints as \<open>int\<close>, \<open>str\<close> as
  \<open>string\<close> with the lexicographic order on character codes. The four string enums are
  datatypes; every member has a non-empty value, so a member is always truthy and
  \<open>if occasion:\<close> on an \<open>Optional[Occasion]\<close> tests for \<open>None\<close> only.
\<close>

datatype Category = TOP | BOTTOM | FOOTWEAR | ACCESSORY

datatype Style = CASUAL | FORMAL | SPORTY | BOHEMIAN | MINIMALIST | VINTAGE | STREETWEAR | BUSINESS

datatype Season = SPRING | SUMMER | FALL | WINTER | ALL_SEASON

datatype Occasion = EVERYDAY | WORK | PARTY | DATE | SPORTS | FORMAL_EVENT | TRAVEL

text \<open>The channels \<open>r\<close>, \<open>g\<close>, \<open>b\<close> of \<open>Color\<close>.\<close>

record Color =
  r_ch :: int
  g_ch :: int
  b_ch :: int

text \<open>
  \<open>Product\<close>; the field \<open>id\<close> is \<open>id_p\<close> here. Equality of records is equality of
  all fields, as the dataclass's generated \<open>__eq__\<close> is.
\<close>

record Product =
  id_p :: string
  name :: string
  category :: Category
  style :: Style
  color :: Color
  price :: real
  season :: Season
  occasion :: "Occasion list"
  brand :: "string option"
  description :: "string option"

text \<open>
  \<open>Outfit\<close>; the field \<open>top\<close> is \<open>top_p\<close> here. The \<open>reasoning\<close> text (built from
  formatted floats) is left out of the model: no property below reads it.
\<close>

record Outfit =
  top_p :: Product
  bottom :: Product
  footwear :: Product
  accessories :: "Product list"
  match_score :: real
  total_price :: real

record RecommendationRequest =
  base_product_id :: string
  occasion :: "Occasion option"
  season :: "Season option"
  max_budget :: "real option"
  style_preference :: "Style option"
  num_recommendations :: int

text \<open>Every raise of the modelled code is a value of this type.\<close>

datatype error = ProductNotFound | NoCandidatesAvailable | IndexError | ZeroDivisionError

text \<open>Python's true division raises on a zero divisor.\<close>

definition py_div :: "real \<Rightarrow> real \<Rightarrow> error + real" where
  "py_div a b = (if b = 0 then Inl ZeroDivisionError else Inr (a / b))"

text \<open>Python's \<open>x % m\<close> on floats for a positive \<open>m\<close>: the result has the sign of \<open>m\<close>.\<close>

definition py_fmod :: "real \<Rightarrow> real \<Rightarrow> real" where
  "py_fmod x m = x - m * of_int \<lfloor>x / m\<rfloor>"

text \<open>\<open>Color.to_hsv\<close>: both divisions stand behind the source's own zero checks.\<close>

definition to_hsv :: "Color \<Rightarrow> real \<times> real \<times> real" where
  "to_hsv c =
     (let r = real_of_int (r_ch c) / 255;
          g = real_of_int (g_ch c) / 255;
          b = real_of_int (b_ch c) / 255;
          max_val = max (max r g) b;
          min_val = min (min r g) b;
          delta = max_val - min_val;
          h = (if delta = 0 then 0
               else if max_val = r then 60 * py_fmod ((g - b) / delta) 6
               else if max_val = g then 60 * ((b - r) / delta + 2)
               else 60 * ((r - g) / delta + 4));
          s = (if max_val = 0 then 0 else delta / max_val);
          v = max_val
      in (h, s, v))"

definition hue :: "Color \<Rightarrow> real" where
  "hue c = fst (to_hsv c)"

definition saturation :: "Color \<Rightarrow> real" where
  "saturation c = fst (snd (to_hsv c))"

section \<open>The scorer (app/scorer.py)\<close>

record OutfitScorer =
  target_occasion :: "Occasion option"
  target_season :: "Season option"
  max_budget :: "real option"

definition COLOR_WEIGHT :: real where "COLOR_WEIGHT = 0.30"
definition STYLE_WEIGHT :: real where "STYLE_WEIGHT = 0.25"
definition OCCASION_WEIGHT :: real where "OCCASION_WEIGHT = 0.20"
definition SEASON_WEIGHT :: real where "SEASON_WEIGHT = 0.15"
definition BUDGET_WEIGHT :: real where "BUDGET_WEIGHT = 0.10"

text \<open>\<open>items = [outfit.top, outfit.bottom, outfit.footwear] + outfit.accessories\<close>\<close>

definition outfit_items :: "Outfit \<Rightarrow> Product list" where
  "outfit_items outfit = [top_p outfit, bottom outfit, footwear outfit] @ accessories outfit"

text \<open>The hue difference of \<open>_score_color_harmony\<close>, folded back above 180.\<close>

definition hue_diff :: "real \<Rightarrow> real \<Rightarrow> real" where
  "hue_diff h base_hue = (let d = \<bar>h - base_hue\<bar> in if d > 180 then 360 - d else d)"

text \<open>The \<open>if\<close>/\<open>elif\<close> chain of \<open>_score_color_harmony\<close>, in the source's order.\<close>

definition item_score :: "real \<Rightarrow> real" where
  "item_score d =
     (if d < 15 then 0.95
      else if d < 30 then 0.85
      else if 115 < d \<and> d < 125 then 0.75
      else if 150 < d \<and> d < 180 then 0.80
      else if 30 < d \<and> d < 60 then 0.70
      else 0.50)"

text \<open>The loop over \<open>colors[1:]\<close>, adding each item's score to \<open>harmony_score\<close>.\<close>

fun harmony_loop :: "real \<Rightarrow> Color list \<Rightarrow> real \<Rightarrow> real" where
  "harmony_loop base_hue [] harmony_score = harmony_score"
| "harmony_loop base_hue (c # cs) harmony_score =
     harmony_loop base_hue cs (harmony_score + item_score (hue_diff (hue c) base_hue))"

text \<open>
  \<open>_score_color_harmony\<close> (the score; the reason text is not modelled). \<open>colors[0]\<close> is the
  top's colour: \<open>colors\<close> starts with the three core items, so the index never fails.
\<close>

definition score_color_harmony :: "Outfit \<Rightarrow> real" where
  "score_color_harmony outfit =
     (let colors = map color (outfit_items outfit);
          base_hue = hue (color (top_p outfit));
          harmony_score = harmony_loop base_hue (tl colors) 0;
          avg_score = (if length colors > 1 then harmony_score / real (length (tl colors)) else 0.5);
          neutral_count = length (filter (\<lambda>c. saturation c < 0.2) colors);
          neutral_bonus = (if neutral_count > 0 then min 0.1 (real neutral_count * 0.03) else 0)
      in min 1 (avg_score + neutral_bonus))"

definition score_style_compatibility :: "Outfit \<Rightarrow> real" where
  "score_style_compatibility outfit =
     (let styles = map style (outfit_items outfit);
          base_style = style (top_p outfit);
          matches = length (filter (\<lambda>s. s = base_style) (tl styles));
          total = length styles - 1
      in if total = 0 then 1
         else let match_ratio = real matches / real total
              in if match_ratio = 1 then 1
                 else if match_ratio \<ge> 0.5 then 0.75
                 else 0.55)"

text \<open>The four-step ladder shared by the occasion and the season score.\<close>

definition ratio_score :: "real \<Rightarrow> real" where
  "ratio_score match_ratio =
     (if match_ratio \<ge> 0.8 then 1.0
      else if match_ratio \<ge> 0.6 then 0.8
      else if match_ratio \<ge> 0.4 then 0.6
      else 0.4)"

text \<open>\<open>matching_items / total\<close> has no guard in the source, so it is a \<open>py_div\<close>.\<close>

definition score_occasion_fit :: "OutfitScorer \<Rightarrow> Outfit \<Rightarrow> error + real" where
  "score_occasion_fit self outfit =
     (case target_occasion self of
        None \<Rightarrow> Inr 0.7
      | Some occ \<Rightarrow>
          (let items = outfit_items outfit;
               matching_items = length (filter (\<lambda>item. occ \<in> set (Product.occasion item)) items);
               total = length items
           in case py_div (real matching_items) (real total) of
                Inl e \<Rightarrow> Inl e
              | Inr match_ratio \<Rightarrow> Inr (ratio_score match_ratio)))"

definition score_season_fit :: "OutfitScorer \<Rightarrow> Outfit \<Rightarrow> error + real" where
  "score_season_fit self outfit =
     (case target_season self of
        None \<Rightarrow> Inr 0.7
      | Some sea \<Rightarrow>
          (let items = outfit_items outfit;
               matching_items =
                 length (filter (\<lambda>item. Product.season item = sea \<or> Product.season item = ALL_SEASON) items);
               total = length items
           in case py_div (real matching_items) (real total) of
                Inl e \<Rightarrow> Inl e
              | Inr match_ratio \<Rightarrow> Inr (ratio_score match_ratio)))"

text \<open>
  \<open>_score_budget\<close>. \<open>if not self.max_budget\<close> holds for \<open>None\<close> and for \<open>0.0\<close>, so the
  division by the budget is never by zero.
\<close>

definition score_budget :: "OutfitScorer \<Rightarrow> Outfit \<Rightarrow> real" where
  "score_budget self outfit =
     (case OutfitScorer.max_budget self of
        None \<Rightarrow> 0.7
      | Some budget \<Rightarrow>
          if budget = 0 then 0.7
          else if total_price outfit \<le> budget then
            (let ratio = total_price outfit / budget
             in if ratio < 0.7 then 0.9 else 1.0)
          else
            (let overage = total_price outfit - budget;
                 penalty = min 0.5 (overage / budget)
             in max 0.1 (0.5 - penalty)))"

text \<open>\<open>score_outfit\<close>: the five sub-scores in the source's order, then the weighted sum.\<close>

definition score_outfit :: "OutfitScorer \<Rightarrow> Outfit \<Rightarrow> error + real" where
  "score_outfit self outfit =
     (let color_score = score_color_harmony outfit;
          style_score = score_style_compatibility outfit
      in case score_occasion_fit self outfit of
           Inl e \<Rightarrow> Inl e
         | Inr occasion_score \<Rightarrow>
             (case score_season_fit self outfit of
                Inl e \<Rightarrow> Inl e
              | Inr season_score \<Rightarrow>
                  (let budget_score = score_budget self outfit
                   in Inr (color_score * COLOR_WEIGHT +
                           style_score * STYLE_WEIGHT +
                           occasion_score * OCCASION_WEIGHT +
                           season_score * SEASON_WEIGHT +
                           budget_score * BUDGET_WEIGHT))))"

section \<open>The recommender (app/recommender.py)\<close>

text \<open>
  The process-wide random source is an explicit stream of naturals, threaded through
  every call: \<open>random.choice\<close> and \<open>random.randint\<close> each take one draw, and every
  outcome of the source is the outcome under some stream.
\<close>

type_synonym rng = "nat \<Rightarrow> nat"

definition rng_next :: "rng \<Rightarrow> nat \<times> rng" where
  "rng_next g = (g 0, \<lambda>n. g (Suc n))"

definition random_choice :: "'a list \<Rightarrow> rng \<Rightarrow> (error + 'a) \<times> rng" where
  "random_choice xs g =
     (if xs = [] then (Inl IndexError, g)
      else (Inr (xs ! (fst (rng_next g) mod length xs)), snd (rng_next g)))"

definition random_randint :: "nat \<Rightarrow> nat \<Rightarrow> rng \<Rightarrow> nat \<times> rng" where
  "random_randint lo hi g = (lo + fst (rng_next g) mod (hi - lo + 1), snd (rng_next g))"

record OutfitRecommender =
  products :: "Product list"
  by_category :: "Category \<Rightarrow> Product list"
  by_id :: "string \<Rightarrow> Product option"
  compatibility_cache :: "string \<times> string \<Rightarrow> real option"

text \<open>
  \<open>_index_products\<close>: \<open>by_category\<close> is a \<open>defaultdict(list)\<close>, so a category without
  products reads as the empty list; in \<open>by_id\<close> a later product overwrites an earlier
  one with the same id.
\<close>

fun index_products ::
  "Product list \<Rightarrow> (Category \<Rightarrow> Product list) \<times> (string \<Rightarrow> Product option) \<Rightarrow>
   (Category \<Rightarrow> Product list) \<times> (string \<Rightarrow> Product option)" where
  "index_products [] (bc, bi) = (bc, bi)"
| "index_products (product # ps) (bc, bi) =
     index_products ps (bc(category product := bc (category product) @ [product]),
                        bi(id_p product \<mapsto> product))"

text \<open>\<open>tuple(sorted([p1.id, p2.id]))\<close>\<close>

definition sorted_key :: "string \<Rightarrow> string \<Rightarrow> string \<times> string" where
  "sorted_key a b = (if b < a then (b, a) else (a, b))"

text \<open>\<open>_calculate_color_compatibility\<close>: the coarse band table of the index.\<close>

definition calculate_color_compatibility :: "Color \<Rightarrow> Color \<Rightarrow> real" where
  "calculate_color_compatibility color1 color2 =
     (let d = hue_diff (hue color1) (hue color2)
      in if d < 30 then 0.9
         else if 150 < d \<and> d < 180 then 0.85
         else if 115 < d \<and> d < 125 then 0.75
         else 0.6)"

text \<open>\<open>_precompute_compatibility\<close>: the inner loop over \<open>products[i+1:]\<close>, then the outer one.\<close>

fun precompute_inner ::
  "Product \<Rightarrow> Product list \<Rightarrow> (string \<times> string \<Rightarrow> real option) \<Rightarrow> (string \<times> string \<Rightarrow> real option)" where
  "precompute_inner p1 [] cache = cache"
| "precompute_inner p1 (p2 # ps) cache =
     precompute_inner p1 ps
       (cache(sorted_key (id_p p1) (id_p p2) \<mapsto> calculate_color_compatibility (color p1) (color p2)))"

fun precompute_compatibility ::
  "Product list \<Rightarrow> (string \<times> string \<Rightarrow> real option) \<Rightarrow> (string \<times> string \<Rightarrow> real option)" where
  "precompute_compatibility [] cache = cache"
| "precompute_compatibility (p1 # ps) cache = precompute_compatibility ps (precompute_inner p1 ps cache)"

text \<open>\<open>OutfitRecommender.__init__\<close>\<close>

definition new_recommender :: "Product list \<Rightarrow> OutfitRecommender" where
  "new_recommender ps =
     \<lparr>products = ps,
      by_category = fst (index_products ps (\<lambda>_. [], Map.empty)),
      by_id = snd (index_products ps (\<lambda>_. [], Map.empty)),
      compatibility_cache = precompute_compatibility ps Map.empty\<rparr>"

text \<open>\<open>_get_compatibility\<close>: \<open>dict.get(key, 0.5)\<close>\<close>

definition get_compatibility :: "OutfitRecommender \<Rightarrow> Product \<Rightarrow> Product \<Rightarrow> real" where
  "get_compatibility self p1 p2 =
     (case compatibility_cache self (sorted_key (id_p p1) (id_p p2)) of
        None \<Rightarrow> 0.5
      | Some score \<Rightarrow> score)"

text \<open>
  One category of \<open>_filter_candidates\<close>: the four filters in the source's order.
  \<open>if max_budget:\<close> is false for \<open>None\<close> and for \<open>0.0\<close>.
\<close>

definition filter_category ::
  "OutfitRecommender \<Rightarrow> Product \<Rightarrow> Occasion option \<Rightarrow> Season option \<Rightarrow> real option \<Rightarrow>
   Style option \<Rightarrow> Category \<Rightarrow> Product list" where
  "filter_category self base_product occ sea mb sp cat =
     (let c0 = by_category self cat;
          c1 = (case occ of None \<Rightarrow> c0
                | Some oc \<Rightarrow> filter (\<lambda>p. oc \<in> set (Product.occasion p)) c0);
          c2 = (case sea of None \<Rightarrow> c1
                | Some se \<Rightarrow> filter (\<lambda>p. Product.season p = se \<or> Product.season p = ALL_SEASON) c1);
          c3 = (case sp of None \<Rightarrow> c2
                | Some st \<Rightarrow> filter (\<lambda>p. style p = st \<or> style p = style base_product) c2);
          c4 = (case mb of None \<Rightarrow> c3
                | Some budget \<Rightarrow>
                    if budget = 0 then c3
                    else (let base_price = price base_product;
                              remaining_budget = budget - base_price
                          in filter (\<lambda>p. price p \<le> remaining_budget * 1.5) c3))
      in c4)"

text \<open>\<open>_filter_candidates\<close>: the loop over the four categories fills a \<open>defaultdict(list)\<close>.\<close>

definition filter_candidates ::
  "OutfitRecommender \<Rightarrow> Product \<Rightarrow> Occasion option \<Rightarrow> Season option \<Rightarrow> real option \<Rightarrow>
   Style option \<Rightarrow> (Category \<Rightarrow> Product list)" where
  "filter_candidates self base_product occ sea mb sp =
     foldl (\<lambda>filtered cat. filtered(cat := filter_category self base_product occ sea mb sp cat))
       (\<lambda>_. []) [TOP, BOTTOM, FOOTWEAR, ACCESSORY]"

text \<open>The scoring loop of \<open>_select_item\<close>: a candidate with the base product's id is skipped.\<close>

fun score_candidates :: "OutfitRecommender \<Rightarrow> Product \<Rightarrow> Product list \<Rightarrow> (real \<times> Product) list" where
  "score_candidates self base_product [] = []"
| "score_candidates self base_product (candidate # cs) =
     (if id_p candidate = id_p base_product then score_candidates self base_product cs
      else (let compatibility = get_compatibility self base_product candidate;
                style_bonus = (if style candidate = style base_product then 0.2 else 0.0);
                score = compatibility + style_bonus
            in (score, candidate) # score_candidates self base_product cs))"

text \<open>
  \<open>scored.sort(key=lambda x: x[0], reverse=True)\<close> and the slice: Python's sort is stable,
  also with \<open>reverse=True\<close>; so is \<open>sort_key\<close> on the negated score.
\<close>

definition top_candidates :: "OutfitRecommender \<Rightarrow> Product \<Rightarrow> Product list \<Rightarrow> (real \<times> Product) list" where
  "top_candidates self base_product candidates =
     (let scored = sort_key (\<lambda>x. - fst x) (score_candidates self base_product candidates)
      in take (max 3 (length scored div 3)) scored)"

definition select_item :: "OutfitRecommender \<Rightarrow> Product list \<Rightarrow> Product \<Rightarrow> rng \<Rightarrow> (error + Product) \<times> rng" where
  "select_item self candidates base_product g =
     (if candidates = [] then (Inl NoCandidatesAvailable, g)
      else if top_candidates self base_product candidates \<noteq> [] then
        (case random_choice (top_candidates self base_product candidates) g of
           (Inl e, g') \<Rightarrow> (Inl e, g')
         | (Inr x, g') \<Rightarrow> (Inr (snd x), g'))
      else random_choice candidates g)"

text \<open>The \<open>for _ in range(num_accessories)\<close> loop of \<open>_generate_single_outfit\<close>.\<close>

fun select_accessories ::
  "OutfitRecommender \<Rightarrow> Product list \<Rightarrow> Product \<Rightarrow> nat \<Rightarrow> Product list \<Rightarrow> rng \<Rightarrow>
   (error + Product list) \<times> rng" where
  "select_accessories self cands base_product 0 accs g = (Inr accs, g)"
| "select_accessories self cands base_product (Suc n) accs g =
     (if cands \<noteq> [] then
        (case select_item self cands base_product g of
           (Inl e, g') \<Rightarrow> (Inl e, g')
         | (Inr acc, g') \<Rightarrow>
             select_accessories self cands base_product n
               (if acc \<notin> set accs then accs @ [acc] else accs) g')
      else select_accessories self cands base_product n accs g)"

text \<open>A slot of the outfit: the base product itself, or a selected candidate.\<close>

definition select_slot ::
  "OutfitRecommender \<Rightarrow> Product \<Rightarrow> (Category \<Rightarrow> Product list) \<Rightarrow> Category \<Rightarrow> rng \<Rightarrow>
   (error + Product) \<times> rng" where
  "select_slot self base_product candidates cat g =
     (if category base_product = cat then (Inr base_product, g)
      else select_item self (candidates cat) base_product g)"

text \<open>The fallback: \<open>if not accessories and candidates[Category.ACCESSORY]\<close>.\<close>

definition force_accessory ::
  "OutfitRecommender \<Rightarrow> Product list \<Rightarrow> Product \<Rightarrow> Product list \<Rightarrow> rng \<Rightarrow>
   (error + Product list) \<times> rng" where
  "force_accessory self cands base_product accs g =
     (if accs = [] \<and> cands \<noteq> [] then
        (case select_item self cands base_product g of
           (Inl e, g') \<Rightarrow> (Inl e, g')
         | (Inr acc, g') \<Rightarrow> (Inr (accs @ [acc]), g'))
      else (Inr accs, g))"

definition make_outfit :: "Product \<Rightarrow> Product \<Rightarrow> Product \<Rightarrow> Product list \<Rightarrow> Outfit" where
  "make_outfit top_item bottom_item footwear_item accs =
     \<lparr>top_p = top_item, bottom = bottom_item, footwear = footwear_item, accessories = accs,
      match_score = 0.0,
      total_price = price top_item + price bottom_item + price footwear_item +
                    sum_list (map price accs)\<rparr>"

text \<open>
  \<open>_generate_single_outfit\<close>: top, bottom, footwear, the number of accessories, the
  accessories, the fallback, in this order; the first raise ends the attempt.
\<close>

definition generate_single_outfit ::
  "OutfitRecommender \<Rightarrow> Product \<Rightarrow> (Category \<Rightarrow> Product list) \<Rightarrow> RecommendationRequest \<Rightarrow> rng \<Rightarrow>
   (error + Outfit) \<times> rng" where
  "generate_single_outfit self base_product candidates request g =
     (case select_slot self base_product candidates TOP g of
        (Inl e, g1) \<Rightarrow> (Inl e, g1)
      | (Inr top_item, g1) \<Rightarrow>
     (case select_slot self base_product candidates BOTTOM g1 of
        (Inl e, g2) \<Rightarrow> (Inl e, g2)
      | (Inr bottom_item, g2) \<Rightarrow>
     (case select_slot self base_product candidates FOOTWEAR g2 of
        (Inl e, g3) \<Rightarrow> (Inl e, g3)
      | (Inr footwear_item, g3) \<Rightarrow>
     (case random_randint 1 3 g3 of (num_accessories, g4) \<Rightarrow>
     (case select_accessories self (candidates ACCESSORY) base_product num_accessories [] g4 of
        (Inl e, g5) \<Rightarrow> (Inl e, g5)
      | (Inr accs, g5) \<Rightarrow>
     (case force_accessory self (candidates ACCESSORY) base_product accs g5 of
        (Inl e, g6) \<Rightarrow> (Inl e, g6)
      | (Inr accs', g6) \<Rightarrow> (Inr (make_outfit top_item bottom_item footwear_item accs'), g6)))))))"

text \<open>\<open>_is_duplicate\<close>: only the ids of top, bottom and footwear are compared.\<close>

fun is_duplicate :: "Outfit \<Rightarrow> Outfit list \<Rightarrow> bool" where
  "is_duplicate outfit [] = False"
| "is_duplicate outfit (existing_outfit # rest) =
     (if id_p (top_p outfit) = id_p (top_p existing_outfit) \<and>
         id_p (bottom outfit) = id_p (bottom existing_outfit) \<and>
         id_p (footwear outfit) = id_p (footwear existing_outfit)
      then True
      else is_duplicate outfit rest)"

definition max_attempts :: nat where
  "max_attempts = 100"

text \<open>
  The \<open>while\<close> loop of \<open>generate_recommendations\<close>: \<open>except Exception: continue\<close> drops a
  failed attempt, which still counts as an attempt.
\<close>

function generate_loop ::
  "OutfitRecommender \<Rightarrow> Product \<Rightarrow> (Category \<Rightarrow> Product list) \<Rightarrow> RecommendationRequest \<Rightarrow>
   nat \<Rightarrow> Outfit list \<Rightarrow> rng \<Rightarrow> Outfit list \<times> rng" where
  "generate_loop self base_product candidates request attempts outfits g =
     (if int (length outfits) < num_recommendations request \<and> attempts < max_attempts then
        (case generate_single_outfit self base_product candidates request g of
           (Inl e, g') \<Rightarrow>
             generate_loop self base_product candidates request (attempts + 1) outfits g'
         | (Inr outfit, g') \<Rightarrow>
             generate_loop self base_product candidates request (attempts + 1)
               (if \<not> is_duplicate outfit outfits then outfits @ [outfit] else outfits) g')
      else (outfits, g))"
  by pat_completeness auto
termination
  by (relation "measure (\<lambda>(self, base_product, candidates, request, attempts, outfits, g). max_attempts - attempts)") auto

declare generate_loop.simps [simp del]

text \<open>The scoring loop: it stands outside the \<open>try\<close>, so a raise of the scorer would propagate.\<close>

fun score_outfits :: "OutfitScorer \<Rightarrow> Outfit list \<Rightarrow> error + Outfit list" where
  "score_outfits scorer [] = Inr []"
| "score_outfits scorer (outfit # rest) =
     (case score_outfit scorer outfit of
        Inl e \<Rightarrow> Inl e
      | Inr score \<Rightarrow>
          (case score_outfits scorer rest of
             Inl e \<Rightarrow> Inl e
           | Inr scored \<Rightarrow> Inr (outfit\<lparr>match_score := score\<rparr> # scored)))"

text \<open>The slice \<open>xs[:n]\<close> for a Python int \<open>n\<close>: a negative \<open>n\<close> counts from the end.\<close>

definition py_take :: "int \<Rightarrow> 'a list \<Rightarrow> 'a list" where
  "py_take n xs = (if 0 \<le> n then take (nat n) xs else take (nat (int (length xs) + n)) xs)"

definition make_scorer :: "RecommendationRequest \<Rightarrow> OutfitScorer" where
  "make_scorer request =
     \<lparr>target_occasion = RecommendationRequest.occasion request,
      target_season = RecommendationRequest.season request,
      max_budget = RecommendationRequest.max_budget request\<rparr>"

definition generate_recommendations ::
  "OutfitRecommender \<Rightarrow> RecommendationRequest \<Rightarrow> rng \<Rightarrow> (error + Outfit list) \<times> rng" where
  "generate_recommendations self request g =
     (case by_id self (base_product_id request) of
        None \<Rightarrow> (Inl ProductNotFound, g)
      | Some base_product \<Rightarrow>
          (let candidates = filter_candidates self base_product
                 (RecommendationRequest.occasion request) (RecommendationRequest.season request)
                 (RecommendationRequest.max_budget request) (style_preference request);
               looped = generate_loop self base_product candidates request 0 [] g
           in case score_outfits (make_scorer request) (fst looped) of
                Inl e \<Rightarrow> (Inl e, snd looped)
              | Inr scored_outfits \<Rightarrow>
                  (Inr (py_take (num_recommendations request)
                          (sort_key (\<lambda>x. - match_score x) scored_outfits)),
                   snd looped)))"

text \<open>The neutrality bonus of \<open>_score_color_harmony\<close>, named for the statements below.\<close>

definition neutral_bonus :: "Outfit \<Rightarrow> real" where
  "neutral_bonus outfit =
     (if length (filter (\<lambda>c. saturation c < 0.2) (map color (outfit_items outfit))) > 0
      then min 0.1 (real (length (filter (\<lambda>c. saturation c < 0.2) (map color (outfit_items outfit)))) * 0.03)
      else 0)"


text \<open>
  The constraints of the candidate filter as the specification words them, one predicate
  per constraint; \<open>filter_category\<close> above is the source's own sequence of filters.
\<close>

definition occasion_ok :: "Occasion option \<Rightarrow> Product \<Rightarrow> bool" where
  "occasion_ok occ p = (case occ of None \<Rightarrow> True | Some oc \<Rightarrow> oc \<in> set (Product.occasion p))"

definition season_ok :: "Season option \<Rightarrow> Product \<Rightarrow> bool" where
  "season_ok sea p = (case sea of None \<Rightarrow> True | Some se \<Rightarrow> Product.season p = se \<or> Product.season p = ALL_SEASON)"

definition style_ok :: "Style option \<Rightarrow> Product \<Rightarrow> Product \<Rightarrow> bool" where
  "style_ok sp base_product p = (case sp of None \<Rightarrow> True | Some st \<Rightarrow> style p = st \<or> style p = style base_product)"

definition budget_ok :: "real option \<Rightarrow> Product \<Rightarrow> Product \<Rightarrow> bool" where
  "budget_ok mb base_product p = (case mb of None \<Rightarrow> True | Some budget \<Rightarrow> price p \<le> (budget - price base_product) * 1.5)"


text \<open>
  The invariant of the cache while it is built: every stored score lies in \<open>[0,1]\<close> and
  every key is a pair of ids of the catalog.
\<close>

definition cache_ok :: "string set \<Rightarrow> (string \<times> string \<Rightarrow> real option) \<Rightarrow> bool" where
  "cache_ok ids cache =
     (\<forall>k v. cache k = Some v \<longrightarrow> 0 \<le> v \<and> v \<le> 1 \<and> fst k \<in> ids \<and> snd k \<in> ids)"


text \<open>The score \<open>_select_item\<close> gives a candidate: compatibility plus the style bonus.\<close>

definition candidate_score :: "OutfitRecommender \<Rightarrow> Product \<Rightarrow> Product \<Rightarrow> real" where
  "candidate_score self base_product candidate =
     get_compatibility self base_product candidate +
     (if style candidate = style base_product then 0.2 else 0)"


text \<open>
  The products \<open>_select_item\<close> can return for a non-empty candidate list: a candidate
  with another id than the base product's, or any candidate when all carry that id.
\<close>

definition selectable :: "Product \<Rightarrow> Product list \<Rightarrow> Product set" where
  "selectable base_product cands =
     {p \<in> set cands. id_p p \<noteq> id_p base_product \<or> list_all (\<lambda>c. id_p c = id_p base_product) cands}"

text \<open>
  What one attempt establishes of the outfit it builds: each core slot holds the base
  product or a candidate of its category, the accessories are distinct candidates, at most
  three, and the total price is the sum of the item prices.
\<close>

definition slot_ok :: "Product \<Rightarrow> (Category \<Rightarrow> Product list) \<Rightarrow> Category \<Rightarrow> Product \<Rightarrow> bool" where
  "slot_ok base_product candidates cat p =
     (if category base_product = cat then p = base_product
      else p \<in> selectable base_product (candidates cat))"

definition outfit_ok :: "Product \<Rightarrow> (Category \<Rightarrow> Product list) \<Rightarrow> Outfit \<Rightarrow> bool" where
  "outfit_ok base_product candidates outfit =
     (slot_ok base_product candidates TOP (top_p outfit) \<and>
      slot_ok base_product candidates BOTTOM (bottom outfit) \<and>
      slot_ok base_product candidates FOOTWEAR (footwear outfit) \<and>
      set (accessories outfit) \<subseteq> selectable base_product (candidates ACCESSORY) \<and>
      distinct (accessories outfit) \<and>
      length (accessories outfit) \<le> 3 \<and>
      (candidates ACCESSORY = [] \<or> accessories outfit \<noteq> []) \<and>
      match_score outfit = 0 \<and>
      total_price outfit = price (top_p outfit) + price (bottom outfit) + price (footwear outfit) +
                           sum_list (map price (accessories outfit)))"


text \<open>The triple \<open>_is_duplicate\<close> compares.\<close>

definition core_ids :: "Outfit \<Rightarrow> string \<times> string \<times> string" where
  "core_ids outfit = (id_p (top_p outfit), id_p (bottom outfit), id_p (footwear outfit))"


text \<open>
  What the scoring loop makes of an outfit (\<open>score_outfit\<close> never raises, see
  \<open>score_outfit_Inr\<close> below), and the list \<open>generate_recommendations\<close> slices: the
  outfits of the attempt loop in the order they were generated, scored, then sorted.
\<close>

definition rescored :: "OutfitScorer \<Rightarrow> Outfit \<Rightarrow> Outfit" where
  "rescored scorer outfit = outfit\<lparr>match_score := projr (score_outfit scorer outfit)\<rparr>"

definition ranked :: "OutfitRecommender \<Rightarrow> RecommendationRequest \<Rightarrow> Product \<Rightarrow> rng \<Rightarrow> Outfit list" where
  "ranked self request base_product g =
     sort_key (\<lambda>x. - match_score x)
       (map (rescored (make_scorer request))
          (fst (generate_loop self base_product
                  (filter_candidates self base_product (RecommendationRequest.occasion request)
                     (RecommendationRequest.season request) (RecommendationRequest.max_budget request)
                     (style_preference request))
                  request 0 [] g)))"


section \<open>A small catalog\<close>

text \<open>
  Five products, one request per base product used below, and the random stream that
  always draws 0. The theorems are instantiated at these values.
\<close>

definition ex_red :: Color where
  "ex_red = \<lparr>r_ch = 255, g_ch = 0, b_ch = 0\<rparr>"

definition ex_cyan :: Color where
  "ex_cyan = \<lparr>r_ch = 0, g_ch = 255, b_ch = 255\<rparr>"

definition ex_black :: Color where
  "ex_black = \<lparr>r_ch = 0, g_ch = 0, b_ch = 0\<rparr>"

definition ex_top :: Product where
  "ex_top = \<lparr>id_p = ''t1'', name = ''shirt'', category = TOP, style = CASUAL, color = ex_red,
             price = 10, season = ALL_SEASON, occasion = [EVERYDAY], brand = None,
             description = None\<rparr>"

definition ex_bottom :: Product where
  "ex_bottom = \<lparr>id_p = ''b1'', name = ''jeans'', category = BOTTOM, style = CASUAL, color = ex_cyan,
                price = 20, season = ALL_SEASON, occasion = [EVERYDAY], brand = None,
                description = None\<rparr>"

definition ex_footwear :: Product where
  "ex_footwear = \<lparr>id_p = ''f1'', name = ''boots'', category = FOOTWEAR, style = FORMAL,
                  color = ex_cyan, price = 30, season = WINTER, occasion = [WORK], brand = None,
                  description = None\<rparr>"

definition ex_watch :: Product where
  "ex_watch = \<lparr>id_p = ''a1'', name = ''watch'', category = ACCESSORY, style = FORMAL,
               color = ex_black, price = 40, season = ALL_SEASON, occasion = [WORK], brand = None,
               description = None\<rparr>"

definition ex_scarf :: Product where
  "ex_scarf = \<lparr>id_p = ''a2'', name = ''scarf'', category = ACCESSORY, style = CASUAL,
               color = ex_red, price = 5, season = WINTER, occasion = [EVERYDAY], brand = None,
               description = None\<rparr>"

definition ex_catalog :: "Product list" where
  "ex_catalog = [ex_top, ex_bottom, ex_footwear, ex_watch, ex_scarf]"

text \<open>The same catalog without its accessories.\<close>

definition ex_core_catalog :: "Product list" where
  "ex_core_catalog = [ex_top, ex_bottom, ex_footwear]"

definition ex_request :: "string \<Rightarrow> RecommendationRequest" where
  "ex_request base_id =
     \<lparr>base_product_id = base_id, occasion = None, season = None, max_budget = None,
      style_preference = None, num_recommendations = 1\<rparr>"

definition ex_scorer :: "real option \<Rightarrow> OutfitScorer" where
  "ex_scorer budget = \<lparr>target_occasion = None, target_season = None, max_budget = budget\<rparr>"

definition zero_rng :: rng where
  "zero_rng = (\<lambda>_. 0)"

text \<open>Red top, cyan bottom and footwear: both hue distances are exactly 180.\<close>

definition ex_outfit :: Outfit where
  "ex_outfit = make_outfit ex_top ex_bottom ex_footwear []"

definition ex_outfit_watch :: Outfit where
  "ex_outfit_watch = make_outfit ex_top ex_bottom ex_footwear [ex_watch]"

definition ex_outfit_scarf :: Outfit where
  "ex_outfit_scarf = make_outfit ex_top ex_bottom ex_footwear [ex_scarf]"

section \<open>Properties of the scorer\<close>

lemma py_div_nonzero: "b \<noteq> 0 \<Longrightarrow> py_div a b = Inr (a / b)"
  by (simp add: py_div_def)

lemma length_outfit_items: "length (outfit_items outfit) = 3 + length (accessories outfit)"
  by (simp add: outfit_items_def)

lemma tl_map_outfit_items:
  "tl (map f (outfit_items outfit)) = map f (bottom outfit # footwear outfit # accessories outfit)"
  by (simp add: outfit_items_def)

lemma item_score_range: "0.5 \<le> item_score d \<and> item_score d \<le> 0.95"
  by (simp add: item_score_def)

lemma harmony_loop_sum:
  "harmony_loop h cs acc = acc + sum_list (map (\<lambda>c. item_score (hue_diff (hue c) h)) cs)"
  by (induction cs arbitrary: acc) auto

lemma sum_item_score_lower:
  "0.5 * real (length cs) \<le> sum_list (map (\<lambda>c. item_score (hue_diff (hue c) h)) cs)"
proof (induction cs)
  case Nil
  then show ?case by simp
next
  case (Cons c cs)
  have "0.5 \<le> item_score (hue_diff (hue c) h)"
    using item_score_range by blast
  with Cons show ?case by (simp add: algebra_simps)
qed

lemma neutral_bonus_nonneg: "0 \<le> neutral_bonus outfit"
  by (simp add: neutral_bonus_def)

lemma neutral_bonus_eq:
  "neutral_bonus outfit =
     min 0.1 (0.03 * real (length (filter (\<lambda>c. saturation c < 0.2) (map color (outfit_items outfit)))))"
proof -
  have "real n * 0.03 = 0.03 * real n" for n by simp
  then show ?thesis unfolding neutral_bonus_def by auto
qed

lemma score_color_harmony_eq:
  "score_color_harmony outfit =
     min 1 (sum_list (map (\<lambda>c. item_score (hue_diff (hue c) (hue (color (top_p outfit)))))
                       (map color (bottom outfit # footwear outfit # accessories outfit)))
              / real (length (bottom outfit # footwear outfit # accessories outfit))
            + neutral_bonus outfit)"
  unfolding score_color_harmony_def Let_def tl_map_outfit_items harmony_loop_sum neutral_bonus_def
  by (simp add: length_outfit_items)

lemma score_color_harmony_range:
  "0.5 \<le> score_color_harmony outfit \<and> score_color_harmony outfit \<le> 1"
proof -
  define cs where "cs = map color (bottom outfit # footwear outfit # accessories outfit)"
  define S where "S = sum_list (map (\<lambda>c. item_score (hue_diff (hue c) (hue (color (top_p outfit))))) cs)"
  have n: "0 < real (length cs)" by (simp add: cs_def)
  have "0.5 * real (length cs) \<le> S"
    unfolding S_def by (rule sum_item_score_lower)
  then have avg: "0.5 \<le> S / real (length cs)"
    using n by (simp add: pos_le_divide_eq)
  have eq: "score_color_harmony outfit = min 1 (S / real (length cs) + neutral_bonus outfit)"
    unfolding S_def cs_def using score_color_harmony_eq[of outfit] by simp
  show ?thesis
    unfolding eq using avg neutral_bonus_nonneg[of outfit] by simp
qed

lemma score_style_compatibility_range:
  "0.55 \<le> score_style_compatibility outfit \<and> score_style_compatibility outfit \<le> 1"
  by (simp add: score_style_compatibility_def Let_def)

lemma ratio_score_range: "0.4 \<le> ratio_score x \<and> ratio_score x \<le> 1"
  by (simp add: ratio_score_def)

lemma score_occasion_fit_ok:
  "\<exists>s. score_occasion_fit self outfit = Inr s \<and> 0.4 \<le> s \<and> s \<le> 1"
proof (cases "target_occasion self")
  case None
  then show ?thesis by (intro exI[of _ "0.7"]) (simp add: score_occasion_fit_def)
next
  case (Some occ)
  have "real (length (outfit_items outfit)) \<noteq> 0"
    by (simp add: length_outfit_items)
  then show ?thesis
    using Some ratio_score_range by (simp add: score_occasion_fit_def Let_def py_div_nonzero)
qed

lemma score_season_fit_ok:
  "\<exists>s. score_season_fit self outfit = Inr s \<and> 0.4 \<le> s \<and> s \<le> 1"
proof (cases "target_season self")
  case None
  then show ?thesis by (intro exI[of _ "0.7"]) (simp add: score_season_fit_def)
next
  case (Some sea)
  have "real (length (outfit_items outfit)) \<noteq> 0"
    by (simp add: length_outfit_items)
  then show ?thesis
    using Some ratio_score_range by (simp add: score_season_fit_def Let_def py_div_nonzero)
qed

lemma score_budget_within:
  "0 < b \<Longrightarrow> OutfitScorer.max_budget self = Some b \<Longrightarrow> total_price outfit \<le> b \<Longrightarrow>
   score_budget self outfit = (if total_price outfit / b < 0.7 then 0.9 else 1)"
  by (simp add: score_budget_def)

lemma score_budget_over:
  "0 < b \<Longrightarrow> OutfitScorer.max_budget self = Some b \<Longrightarrow> b < total_price outfit \<Longrightarrow>
   score_budget self outfit = max 0.1 (0.5 - min 0.5 ((total_price outfit - b) / b))"
  by (simp add: score_budget_def)

lemma score_budget_range:
  assumes "\<forall>b. OutfitScorer.max_budget self = Some b \<longrightarrow> 0 \<le> b"
  shows "0.1 \<le> score_budget self outfit \<and> score_budget self outfit \<le> 1"
proof (cases "OutfitScorer.max_budget self")
  case None
  then show ?thesis by (simp add: score_budget_def)
next
  case (Some b)
  with assms have b0: "0 \<le> b" by simp
  show ?thesis
  proof (cases "b = 0")
    case True
    with Some show ?thesis by (simp add: score_budget_def)
  next
    case False
    with b0 have bp: "0 < b" by simp
    show ?thesis
    proof (cases "total_price outfit \<le> b")
      case True
      then show ?thesis using score_budget_within[OF bp Some True] by simp
    next
      case False
      then have over: "b < total_price outfit" by simp
      then have "0 < (total_price outfit - b) / b" using bp by simp
      then have "0 < min 0.5 ((total_price outfit - b) / b)" by simp
      then show ?thesis using score_budget_over[OF bp Some over] by simp
    qed
  qed
qed

lemma weights_sum: "COLOR_WEIGHT + STYLE_WEIGHT + OCCASION_WEIGHT + SEASON_WEIGHT + BUDGET_WEIGHT = 1"
  by (simp add: COLOR_WEIGHT_def STYLE_WEIGHT_def OCCASION_WEIGHT_def SEASON_WEIGHT_def BUDGET_WEIGHT_def)

lemma weighted_sum_range:
  fixes c s o' e b :: real
  assumes "0 \<le> c" "c \<le> 1" "0 \<le> s" "s \<le> 1" "0 \<le> o'" "o' \<le> 1" "0 \<le> e" "e \<le> 1" "0 \<le> b" "b \<le> 1"
  shows "0 \<le> c * 0.30 + s * 0.25 + o' * 0.20 + e * 0.15 + b * 0.10 \<and>
         c * 0.30 + s * 0.25 + o' * 0.20 + e * 0.15 + b * 0.10 \<le> 1"
  using assms by simp


section \<open>The scorer on the small catalog\<close>

lemma to_hsv_ex_red: "to_hsv ex_red = (0, 1, 1)"
  by (simp add: to_hsv_def ex_red_def Let_def py_fmod_def)

lemma to_hsv_ex_cyan: "to_hsv ex_cyan = (180, 1, 1)"
  by (simp add: to_hsv_def ex_cyan_def Let_def py_fmod_def)

lemma to_hsv_ex_black: "to_hsv ex_black = (0, 0, 0)"
  by (simp add: to_hsv_def ex_black_def Let_def)

lemma ex_hues: "hue ex_red = 0" "hue ex_cyan = 180" "hue ex_black = 0"
  by (simp_all add: hue_def to_hsv_ex_red to_hsv_ex_cyan to_hsv_ex_black)

lemma ex_saturations: "saturation ex_red = 1" "saturation ex_cyan = 1" "saturation ex_black = 0"
  by (simp_all add: saturation_def to_hsv_ex_red to_hsv_ex_cyan to_hsv_ex_black)

lemma ex_item_scores: "item_score (hue_diff 180 0) = 0.5" "item_score (hue_diff 0 0) = 0.95"
  by (simp_all add: item_score_def hue_diff_def)

lemma ex_colors: "color ex_top = ex_red" "color ex_bottom = ex_cyan" "color ex_footwear = ex_cyan"
  "color ex_watch = ex_black" "color ex_scarf = ex_red"
  by (simp_all add: ex_top_def ex_bottom_def ex_footwear_def ex_watch_def ex_scarf_def)

lemma ex_styles: "style ex_top = CASUAL" "style ex_bottom = CASUAL" "style ex_footwear = FORMAL"
  "style ex_watch = FORMAL" "style ex_scarf = CASUAL"
  by (simp_all add: ex_top_def ex_bottom_def ex_footwear_def ex_watch_def ex_scarf_def)

lemma ex_prices: "price ex_top = 10" "price ex_bottom = 20" "price ex_footwear = 30"
  "price ex_watch = 40" "price ex_scarf = 5"
  by (simp_all add: ex_top_def ex_bottom_def ex_footwear_def ex_watch_def ex_scarf_def)

lemma make_outfit_sel:
  "top_p (make_outfit t b f accs) = t" "bottom (make_outfit t b f accs) = b"
  "footwear (make_outfit t b f accs) = f" "accessories (make_outfit t b f accs) = accs"
  "match_score (make_outfit t b f accs) = 0"
  "total_price (make_outfit t b f accs) = price t + price b + price f + sum_list (map price accs)"
  by (simp_all add: make_outfit_def)

lemma outfit_items_make_outfit: "outfit_items (make_outfit t b f accs) = t # b # f # accs"
  by (simp add: outfit_items_def make_outfit_sel)

lemma score_color_harmony_ex_outfit: "score_color_harmony ex_outfit = 0.5"
  unfolding score_color_harmony_eq neutral_bonus_eq ex_outfit_def make_outfit_sel outfit_items_make_outfit
  by (simp add: ex_colors ex_hues ex_saturations ex_item_scores)

lemma score_color_harmony_ex_outfit_watch: "score_color_harmony ex_outfit_watch = 0.68"
  unfolding score_color_harmony_eq neutral_bonus_eq ex_outfit_watch_def make_outfit_sel outfit_items_make_outfit
  by (simp add: ex_colors ex_hues ex_saturations ex_item_scores)

lemma score_color_harmony_ex_outfit_scarf: "score_color_harmony ex_outfit_scarf = 0.65"
  unfolding score_color_harmony_eq neutral_bonus_eq ex_outfit_scarf_def make_outfit_sel outfit_items_make_outfit
  by (simp add: ex_colors ex_hues ex_saturations ex_item_scores)

lemma score_style_ex_outfit: "score_style_compatibility ex_outfit = 0.75"
  unfolding score_style_compatibility_def Let_def ex_outfit_def make_outfit_sel outfit_items_make_outfit
  by (simp add: ex_styles)

lemma score_style_ex_outfit_watch: "score_style_compatibility ex_outfit_watch = 0.55"
  unfolding score_style_compatibility_def Let_def ex_outfit_watch_def make_outfit_sel outfit_items_make_outfit
  by (simp add: ex_styles)

lemma score_style_ex_outfit_scarf: "score_style_compatibility ex_outfit_scarf = 0.75"
  unfolding score_style_compatibility_def Let_def ex_outfit_scarf_def make_outfit_sel outfit_items_make_outfit
  by (simp add: ex_styles)

lemma ex_total_prices: "total_price ex_outfit = 60" "total_price ex_outfit_watch = 100"
  "total_price ex_outfit_scarf = 65"
  by (simp_all add: ex_outfit_def ex_outfit_watch_def ex_outfit_scarf_def make_outfit_sel ex_prices)

lemma ex_scorer_sel: "target_occasion (ex_scorer b) = None" "target_season (ex_scorer b) = None"
  "OutfitScorer.max_budget (ex_scorer b) = b"
  by (simp_all add: ex_scorer_def)

lemma score_fits_ex_scorer:
  "score_occasion_fit (ex_scorer b) outfit = Inr 0.7" "score_season_fit (ex_scorer b) outfit = Inr 0.7"
  by (simp_all add: score_occasion_fit_def score_season_fit_def ex_scorer_sel)

lemma score_budget_ex_none: "score_budget (ex_scorer None) outfit = 0.7"
  by (simp add: score_budget_def ex_scorer_sel)


section \<open>Indexing and the candidate filter\<close>

lemma index_products_by_category:
  "fst (index_products ps (bc, bi)) cat = bc cat @ filter (\<lambda>p. category p = cat) ps"
  by (induction ps arbitrary: bc bi) auto

lemma index_products_by_id_absent:
  "k \<notin> id_p ` set ps \<Longrightarrow> snd (index_products ps (bc, bi)) k = bi k"
  by (induction ps arbitrary: bc bi) auto

lemma index_products_by_id_present:
  "k \<in> id_p ` set ps \<Longrightarrow> \<exists>p \<in> set ps. id_p p = k \<and> snd (index_products ps (bc, bi)) k = Some p"
proof (induction ps arbitrary: bc bi)
  case Nil
  then show ?case by simp
next
  case (Cons q ps)
  show ?case
  proof (cases "k \<in> id_p ` set ps")
    case True
    from Cons.IH[OF True] show ?thesis by auto
  next
    case False
    with Cons.prems have "id_p q = k" by auto
    with False show ?thesis by (simp add: index_products_by_id_absent)
  qed
qed

lemma by_category_new_recommender:
  "by_category (new_recommender ps) cat = filter (\<lambda>p. category p = cat) ps"
  by (simp add: new_recommender_def index_products_by_category)

lemma by_id_new_recommender_None:
  "by_id (new_recommender ps) k = None \<longleftrightarrow> k \<notin> id_p ` set ps"
proof
  assume h: "by_id (new_recommender ps) k = None"
  show "k \<notin> id_p ` set ps"
  proof
    assume "k \<in> id_p ` set ps"
    from index_products_by_id_present[OF this, of "\<lambda>_. []" Map.empty] h
    show False by (auto simp: new_recommender_def)
  qed
next
  assume "k \<notin> id_p ` set ps"
  then show "by_id (new_recommender ps) k = None"
    by (simp add: new_recommender_def index_products_by_id_absent)
qed

lemma by_id_new_recommender_Some:
  "by_id (new_recommender ps) k = Some p \<Longrightarrow> p \<in> set ps \<and> id_p p = k"
proof -
  assume h: "by_id (new_recommender ps) k = Some p"
  then have "k \<in> id_p ` set ps"
    using by_id_new_recommender_None[of ps k] by auto
  from index_products_by_id_present[OF this, of "\<lambda>_. []" Map.empty] h
  show ?thesis by (auto simp: new_recommender_def)
qed

lemma filter_candidates_eq:
  "filter_candidates self base_product occ sea mb sp cat =
   filter_category self base_product occ sea mb sp cat"
  by (cases cat) (simp_all add: filter_candidates_def)

lemma filter_category_eq:
  assumes "mb \<noteq> Some 0"
  shows "filter_category self base_product occ sea mb sp cat =
         filter (\<lambda>p. occasion_ok occ p \<and> season_ok sea p \<and> style_ok sp base_product p \<and> budget_ok mb base_product p)
           (by_category self cat)"
proof -
  have 1: "(case occ of None \<Rightarrow> xs | Some oc \<Rightarrow> filter (\<lambda>p. oc \<in> set (Product.occasion p)) xs) = filter (occasion_ok occ) xs" for xs
    by (cases occ) (simp_all add: occasion_ok_def[abs_def])
  have 2: "(case sea of None \<Rightarrow> xs | Some se \<Rightarrow> filter (\<lambda>p. Product.season p = se \<or> Product.season p = ALL_SEASON) xs) = filter (season_ok sea) xs" for xs
    by (cases sea) (simp_all add: season_ok_def[abs_def])
  have 3: "(case sp of None \<Rightarrow> xs | Some st \<Rightarrow> filter (\<lambda>p. style p = st \<or> style p = style base_product) xs) = filter (style_ok sp base_product) xs" for xs
    by (cases sp) (simp_all add: style_ok_def[abs_def])
  have 4: "(case mb of None \<Rightarrow> xs | Some budget \<Rightarrow> if budget = 0 then xs else
              (let base_price = price base_product; remaining_budget = budget - base_price
               in filter (\<lambda>p. price p \<le> remaining_budget * 1.5) xs)) = filter (budget_ok mb base_product) xs" for xs
    using assms by (cases mb) (simp_all add: budget_ok_def[abs_def])
  show ?thesis
    unfolding filter_category_def Let_def 1 2 3
    unfolding 4[unfolded Let_def]
    by (simp add: conj_commute conj_left_commute)
qed

section \<open>The compatibility index\<close>

lemma sorted_key_commute: "sorted_key a b = sorted_key b a"
  by (auto simp: sorted_key_def)

lemma calculate_color_compatibility_range:
  "0 \<le> calculate_color_compatibility c1 c2 \<and> calculate_color_compatibility c1 c2 \<le> 1"
  by (simp add: calculate_color_compatibility_def Let_def)

lemma sorted_key_in: "a \<in> ids \<Longrightarrow> b \<in> ids \<Longrightarrow> fst (sorted_key a b) \<in> ids \<and> snd (sorted_key a b) \<in> ids"
  by (simp add: sorted_key_def)

lemma precompute_inner_ok:
  "cache_ok ids cache \<Longrightarrow> id_p p1 \<in> ids \<Longrightarrow> id_p ` set ps \<subseteq> ids \<Longrightarrow>
   cache_ok ids (precompute_inner p1 ps cache)"
proof (induction ps arbitrary: cache)
  case Nil
  then show ?case by simp
next
  case (Cons p2 ps)
  let ?key = "sorted_key (id_p p1) (id_p p2)"
  let ?val = "calculate_color_compatibility (color p1) (color p2)"
  have key: "fst ?key \<in> ids \<and> snd ?key \<in> ids"
    using Cons.prems by (intro sorted_key_in) auto
  have val: "0 \<le> ?val \<and> ?val \<le> 1"
    by (rule calculate_color_compatibility_range)
  have "cache_ok ids (cache(?key \<mapsto> ?val))"
    unfolding cache_ok_def
  proof (intro allI impI)
    fix k v
    assume h: "(cache(?key \<mapsto> ?val)) k = Some v"
    show "0 \<le> v \<and> v \<le> 1 \<and> fst k \<in> ids \<and> snd k \<in> ids"
    proof (cases "k = ?key")
      case True
      with h have "v = ?val" by simp
      with True key val show ?thesis by simp
    next
      case False
      with h have "cache k = Some v" by simp
      with Cons.prems(1) show ?thesis unfolding cache_ok_def by blast
    qed
  qed
  then show ?case using Cons by simp
qed

lemma precompute_compatibility_ok:
  "cache_ok ids cache \<Longrightarrow> id_p ` set ps \<subseteq> ids \<Longrightarrow> cache_ok ids (precompute_compatibility ps cache)"
proof (induction ps arbitrary: cache)
  case Nil
  then show ?case by simp
next
  case (Cons p1 ps)
  then have "cache_ok ids (precompute_inner p1 ps cache)"
    by (intro precompute_inner_ok) auto
  then show ?case using Cons by simp
qed

lemma new_recommender_cache_ok:
  "cache_ok (id_p ` set catalog) (compatibility_cache (new_recommender catalog))"
proof -
  have "cache_ok (id_p ` set catalog) Map.empty" by (simp add: cache_ok_def)
  then show ?thesis
    by (simp add: new_recommender_def precompute_compatibility_ok)
qed

lemma get_compatibility_commute: "get_compatibility self p q = get_compatibility self q p"
  by (simp add: get_compatibility_def sorted_key_commute[of "id_p p" "id_p q"])

section \<open>Selecting an item\<close>

lemma score_candidates_eq:
  "score_candidates self base_product candidates =
   map (\<lambda>c. (candidate_score self base_product c, c))
     (filter (\<lambda>c. id_p c \<noteq> id_p base_product) candidates)"
  by (induction candidates) (simp_all add: candidate_score_def Let_def)

lemma top_candidates_eq:
  "top_candidates self base_product candidates =
   take (max 3 (length (filter (\<lambda>c. id_p c \<noteq> id_p base_product) candidates) div 3))
     (sort_key (\<lambda>x. - fst x)
        (map (\<lambda>c. (candidate_score self base_product c, c))
           (filter (\<lambda>c. id_p c \<noteq> id_p base_product) candidates)))"
  by (simp add: top_candidates_def score_candidates_eq Let_def)

lemma top_candidates_subset:
  "x \<in> set (top_candidates self base_product candidates) \<Longrightarrow>
   snd x \<in> set candidates \<and> id_p (snd x) \<noteq> id_p base_product"
proof -
  assume "x \<in> set (top_candidates self base_product candidates)"
  then have "x \<in> set (sort_key (\<lambda>x. - fst x) (score_candidates self base_product candidates))"
    unfolding top_candidates_def Let_def by (rule in_set_takeD)
  then show ?thesis by (auto simp: score_candidates_eq)
qed

lemma sort_key_eq_Nil: "sort_key f xs = [] \<longleftrightarrow> xs = []"
  by (metis length_0_conv length_sort)

lemma top_candidates_Nil:
  "top_candidates self base_product candidates = [] \<longleftrightarrow>
   (\<forall>c \<in> set candidates. id_p c = id_p base_product)"
proof -
  have "top_candidates self base_product candidates = [] \<longleftrightarrow>
        score_candidates self base_product candidates = []"
    unfolding top_candidates_def Let_def by (simp add: take_eq_Nil sort_key_eq_Nil)
  also have "\<dots> \<longleftrightarrow> (\<forall>c \<in> set candidates. id_p c = id_p base_product)"
    by (simp add: score_candidates_eq filter_empty_conv)
  finally show ?thesis .
qed

lemma top_candidates_sorted:
  "sorted (map (\<lambda>x. - fst x) (top_candidates self base_product candidates))"
proof -
  have "sorted (map (\<lambda>x. - fst x) (sort_key (\<lambda>x. - fst x) (score_candidates self base_product candidates)))"
    by (rule sorted_sort_key)
  then have "sorted (take (max 3 (length (score_candidates self base_product candidates) div 3))
               (map (\<lambda>x. - fst x) (sort_key (\<lambda>x. - fst x) (score_candidates self base_product candidates))))"
    by (rule sorted_wrt_take)
  then show ?thesis
    unfolding top_candidates_def Let_def by (simp only: take_map length_sort)
qed

lemma random_choice_in:
  "xs \<noteq> [] \<Longrightarrow> \<exists>x \<in> set xs. random_choice xs g = (Inr x, snd (rng_next g))"
  by (simp add: random_choice_def)

lemma select_item_empty: "select_item self [] base_product g = (Inl NoCandidatesAvailable, g)"
  by (simp add: select_item_def)

lemma select_item_top:
  assumes "top_candidates self base_product candidates \<noteq> []"
  shows "\<exists>x \<in> set (top_candidates self base_product candidates).
           select_item self candidates base_product g = (Inr (snd x), snd (rng_next g))"
proof -
  from assms have ne: "candidates \<noteq> []"
    using top_candidates_Nil[of self base_product candidates] by auto
  from random_choice_in[OF assms, of g] obtain x where
    x: "x \<in> set (top_candidates self base_product candidates)"
       "random_choice (top_candidates self base_product candidates) g = (Inr x, snd (rng_next g))"
    by blast
  have "select_item self candidates base_product g = (Inr (snd x), snd (rng_next g))"
    using ne assms x(2) by (simp add: select_item_def)
  with x(1) show ?thesis by blast
qed

lemma select_item_fallback:
  assumes "candidates \<noteq> []" "top_candidates self base_product candidates = []"
  shows "\<exists>p \<in> set candidates.
           select_item self candidates base_product g = (Inr p, snd (rng_next g))"
  using assms random_choice_in[OF assms(1), of g] by (simp add: select_item_def)

lemma selectable_subset: "selectable base_product cands \<subseteq> set cands"
  by (auto simp: selectable_def)

lemma select_item_nonempty:
  assumes "candidates \<noteq> []"
  shows "\<exists>p \<in> selectable base_product candidates.
           select_item self candidates base_product g = (Inr p, snd (rng_next g))"
proof (cases "top_candidates self base_product candidates = []")
  case True
  then have "list_all (\<lambda>c. id_p c = id_p base_product) candidates"
    by (simp add: top_candidates_Nil list_all_iff)
  with select_item_fallback[OF assms True, of g] show ?thesis
    by (auto simp: selectable_def)
next
  case False
  from select_item_top[OF False, of g] obtain x where
    x: "x \<in> set (top_candidates self base_product candidates)"
       "select_item self candidates base_product g = (Inr (snd x), snd (rng_next g))"
    by blast
  from top_candidates_subset[OF x(1)] have "snd x \<in> selectable base_product candidates"
    by (simp add: selectable_def)
  with x(2) show ?thesis by blast
qed

lemma select_item_fails_iff:
  "(\<exists>e. fst (select_item self candidates base_product g) = Inl e) \<longleftrightarrow> candidates = []"
proof (cases "candidates = []")
  case True
  then show ?thesis by (simp add: select_item_empty)
next
  case False
  from select_item_nonempty[where self=self and base_product=base_product and g=g, OF False] show ?thesis
    using False by auto
qed

section \<open>Generating one outfit\<close>

lemma select_accessories_ok:
  "\<exists>accs' g'. select_accessories self cands base_product n accs g = (Inr accs', g') \<and>
     set accs' \<subseteq> set accs \<union> selectable base_product cands \<and>
     (distinct accs \<longrightarrow> distinct accs') \<and>
     length accs' \<le> length accs + n \<and>
     length accs \<le> length accs'"
proof (induction n arbitrary: accs g)
  case 0
  then show ?case by simp
next
  case (Suc n)
  show ?case
  proof (cases "cands = []")
    case True
    with Suc[of accs g] show ?thesis by auto
  next
    case False
    from select_item_nonempty[where self=self and base_product=base_product and g=g, OF False] obtain acc where
      acc: "acc \<in> selectable base_product cands" "select_item self cands base_product g = (Inr acc, snd (rng_next g))"
      by blast
    let ?accs = "if acc \<notin> set accs then accs @ [acc] else accs"
    from Suc[of ?accs "snd (rng_next g)"] obtain accs' g' where
      r: "select_accessories self cands base_product n ?accs (snd (rng_next g)) = (Inr accs', g')"
         "set accs' \<subseteq> set ?accs \<union> selectable base_product cands"
         "distinct ?accs \<longrightarrow> distinct accs'"
         "length accs' \<le> length ?accs + n"
         "length ?accs \<le> length accs'"
      by blast
    have eq: "select_accessories self cands base_product (Suc n) accs g = (Inr accs', g')"
      using False acc(2) r(1) by simp
    have s: "set accs' \<subseteq> set accs \<union> selectable base_product cands"
      using r(2) acc(1) by (auto split: if_splits)
    have d: "distinct accs \<longrightarrow> distinct accs'"
      using r(3) by (auto split: if_splits)
    have l: "length accs' \<le> length accs + Suc n"
      using r(4) by (auto split: if_splits)
    have l2: "length accs \<le> length accs'"
      using r(5) by (auto split: if_splits)
    show ?thesis using eq s d l l2 by blast
  qed
qed

lemma force_accessory_ok:
  "\<exists>accs' g'. force_accessory self cands base_product accs g = (Inr accs', g') \<and>
     set accs' \<subseteq> set accs \<union> selectable base_product cands \<and>
     (distinct accs \<longrightarrow> distinct accs') \<and>
     length accs' \<le> max 1 (length accs) \<and>
     (cands \<noteq> [] \<longrightarrow> accs' \<noteq> [])"
proof (cases "accs = [] \<and> cands \<noteq> []")
  case True
  then have ne: "cands \<noteq> []" by simp
  from select_item_nonempty[where self=self and base_product=base_product and g=g, OF ne] obtain acc where
    acc: "acc \<in> selectable base_product cands" "select_item self cands base_product g = (Inr acc, snd (rng_next g))"
    by blast
  have "force_accessory self cands base_product accs g = (Inr [acc], snd (rng_next g))"
    using True acc(2) by (simp add: force_accessory_def)
  with acc(1) show ?thesis by auto
next
  case False
  then have "force_accessory self cands base_product accs g = (Inr accs, g)"
    by (auto simp: force_accessory_def)
  with False show ?thesis by auto
qed

lemma select_slot_result:
  "select_slot self base_product candidates cat g = (Inr p, g') \<Longrightarrow>
   (if category base_product = cat then p = base_product
    else p \<in> selectable base_product (candidates cat))"
proof (cases "category base_product = cat")
  case True
  assume "select_slot self base_product candidates cat g = (Inr p, g')"
  with True show ?thesis by (simp add: select_slot_def)
next
  case False
  assume h: "select_slot self base_product candidates cat g = (Inr p, g')"
  with False have s: "select_item self (candidates cat) base_product g = (Inr p, g')"
    by (simp add: select_slot_def)
  then have "candidates cat \<noteq> []" by (auto simp: select_item_empty)
  from select_item_nonempty[where self=self and base_product=base_product and g=g, OF this] s False show ?thesis by auto
qed

lemma select_slot_succeeds:
  "category base_product = cat \<or> candidates cat \<noteq> [] \<Longrightarrow>
   \<exists>p g'. select_slot self base_product candidates cat g = (Inr p, g')"
proof (cases "category base_product = cat")
  case True
  then show ?thesis by (simp add: select_slot_def)
next
  case False
  assume "category base_product = cat \<or> candidates cat \<noteq> []"
  with False have "candidates cat \<noteq> []" by simp
  from select_item_nonempty[where self=self and base_product=base_product and g=g, OF this] False show ?thesis
    by (auto simp: select_slot_def)
qed

lemma select_slot_fails:
  "category base_product \<noteq> cat \<Longrightarrow> candidates cat = [] \<Longrightarrow>
   select_slot self base_product candidates cat g = (Inl NoCandidatesAvailable, g)"
  by (simp add: select_slot_def select_item_empty)

lemma random_randint_range: "1 \<le> fst (random_randint 1 3 g) \<and> fst (random_randint 1 3 g) \<le> 3"
proof -
  have "fst (rng_next g) mod 3 < 3" by simp
  then show ?thesis unfolding random_randint_def by simp
qed

lemma generate_single_outfit_ok:
  assumes "generate_single_outfit self base_product candidates request g = (Inr outfit, g')"
  shows "outfit_ok base_product candidates outfit"
proof -
  from assms obtain t g1 where t: "select_slot self base_product candidates TOP g = (Inr t, g1)"
    unfolding generate_single_outfit_def by (auto split: prod.splits sum.splits)
  from assms t obtain b g2 where b: "select_slot self base_product candidates BOTTOM g1 = (Inr b, g2)"
    unfolding generate_single_outfit_def by (auto split: prod.splits sum.splits)
  from assms t b obtain f g3 where f: "select_slot self base_product candidates FOOTWEAR g2 = (Inr f, g3)"
    unfolding generate_single_outfit_def by (auto split: prod.splits sum.splits)
  obtain n g4 where n: "random_randint 1 3 g3 = (n, g4)" by (cases "random_randint 1 3 g3")
  then have n3: "n \<le> 3" using random_randint_range[of g3] by simp
  from select_accessories_ok[of self "candidates ACCESSORY" base_product n "[]" g4]
  obtain accs g5 where a:
    "select_accessories self (candidates ACCESSORY) base_product n [] g4 = (Inr accs, g5)"
    "set accs \<subseteq> selectable base_product (candidates ACCESSORY)" "distinct accs" "length accs \<le> n"
    by auto
  from force_accessory_ok[of self "candidates ACCESSORY" base_product accs g5]
  obtain accs' g6 where a':
    "force_accessory self (candidates ACCESSORY) base_product accs g5 = (Inr accs', g6)"
    "set accs' \<subseteq> set accs \<union> selectable base_product (candidates ACCESSORY)" "distinct accs \<longrightarrow> distinct accs'"
    "length accs' \<le> max 1 (length accs)" "candidates ACCESSORY \<noteq> [] \<longrightarrow> accs' \<noteq> []"
    by blast
  have "generate_single_outfit self base_product candidates request g = (Inr (make_outfit t b f accs'), g6)"
    by (simp add: generate_single_outfit_def t b f n a(1) a'(1) del: One_nat_def)
  with assms have o: "outfit = make_outfit t b f accs'" by simp
  have l: "length accs' \<le> 3" using a'(4) a(4) n3 by simp
  have s: "set accs' \<subseteq> selectable base_product (candidates ACCESSORY)" using a'(2) a(2) by auto
  have d: "distinct accs'" using a'(3) a(3) by simp
  show ?thesis
    unfolding outfit_ok_def slot_ok_def o make_outfit_def
    using select_slot_result[OF t] select_slot_result[OF b] select_slot_result[OF f] l s d a'(5)
    by auto
qed

lemma generate_single_outfit_succeeds:
  assumes "category base_product = TOP \<or> candidates TOP \<noteq> []"
      and "category base_product = BOTTOM \<or> candidates BOTTOM \<noteq> []"
      and "category base_product = FOOTWEAR \<or> candidates FOOTWEAR \<noteq> []"
  shows "\<exists>outfit g'. generate_single_outfit self base_product candidates request g = (Inr outfit, g')"
proof -
  from select_slot_succeeds[where cat=TOP and candidates=candidates and self=self and g=g, OF assms(1)] obtain t g1 where
    t: "select_slot self base_product candidates TOP g = (Inr t, g1)" by blast
  from select_slot_succeeds[where cat=BOTTOM and candidates=candidates and self=self and g=g1, OF assms(2)] obtain b g2 where
    b: "select_slot self base_product candidates BOTTOM g1 = (Inr b, g2)" by blast
  from select_slot_succeeds[where cat=FOOTWEAR and candidates=candidates and self=self and g=g2, OF assms(3)] obtain f g3 where
    f: "select_slot self base_product candidates FOOTWEAR g2 = (Inr f, g3)" by blast
  obtain n g4 where n: "random_randint 1 3 g3 = (n, g4)" by (cases "random_randint 1 3 g3")
  from select_accessories_ok[of self "candidates ACCESSORY" base_product n "[]" g4]
  obtain accs g5 where a:
    "select_accessories self (candidates ACCESSORY) base_product n [] g4 = (Inr accs, g5)"
    by blast
  from force_accessory_ok[of self "candidates ACCESSORY" base_product accs g5]
  obtain accs' g6 where a':
    "force_accessory self (candidates ACCESSORY) base_product accs g5 = (Inr accs', g6)"
    by blast
  have "generate_single_outfit self base_product candidates request g = (Inr (make_outfit t b f accs'), g6)"
    by (simp add: generate_single_outfit_def t b f n a a' del: One_nat_def)
  then show ?thesis by blast
qed

lemma generate_single_outfit_fails:
  assumes "(category base_product \<noteq> TOP \<and> candidates TOP = []) \<or>
           (category base_product \<noteq> BOTTOM \<and> candidates BOTTOM = []) \<or>
           (category base_product \<noteq> FOOTWEAR \<and> candidates FOOTWEAR = [])"
  shows "\<exists>g'. generate_single_outfit self base_product candidates request g = (Inl NoCandidatesAvailable, g')"
proof -
  obtain r1 g1 where s1: "select_slot self base_product candidates TOP g = (r1, g1)"
    by (cases "select_slot self base_product candidates TOP g")
  obtain r2 g2 where s2: "select_slot self base_product candidates BOTTOM g1 = (r2, g2)"
    by (cases "select_slot self base_product candidates BOTTOM g1")
  obtain r3 g3 where s3: "select_slot self base_product candidates FOOTWEAR g2 = (r3, g3)"
    by (cases "select_slot self base_product candidates FOOTWEAR g2")
  have e1: "r1 = Inl NoCandidatesAvailable" if "category base_product \<noteq> TOP \<and> candidates TOP = []"
    using that s1 by (simp add: select_slot_fails)
  have e2: "r2 = Inl NoCandidatesAvailable" if "category base_product \<noteq> BOTTOM \<and> candidates BOTTOM = []"
    using that s2 by (simp add: select_slot_fails)
  have e3: "r3 = Inl NoCandidatesAvailable" if "category base_product \<noteq> FOOTWEAR \<and> candidates FOOTWEAR = []"
    using that s3 by (simp add: select_slot_fails)
  have inl: "\<exists>p. r = Inr p" if "select_slot self base_product candidates cat h = (r, h')" "r \<noteq> Inl NoCandidatesAvailable" for r cat h h'
  proof (cases "category base_product = cat \<or> candidates cat \<noteq> []")
    case True
    from select_slot_succeeds[where cat=cat and candidates=candidates and self=self and g=h, OF True] that(1) show ?thesis by auto
  next
    case False
    then show ?thesis using that by (simp add: select_slot_fails)
  qed
  show ?thesis
  proof (cases "r1 = Inl NoCandidatesAvailable")
    case True
    then show ?thesis by (simp add: generate_single_outfit_def s1)
  next
    case n1: False
    from inl[OF s1 n1] obtain t where t: "r1 = Inr t" by blast
    show ?thesis
    proof (cases "r2 = Inl NoCandidatesAvailable")
      case True
      then show ?thesis by (simp add: generate_single_outfit_def s1 t s2)
    next
      case n2: False
      from inl[OF s2 n2] obtain b where b: "r2 = Inr b" by blast
      from assms n1 n2 e1 e2 e3 have "r3 = Inl NoCandidatesAvailable" by blast
      then show ?thesis by (simp add: generate_single_outfit_def s1 t s2 b s3)
    qed
  qed
qed

section \<open>The attempt loop and the scoring loop\<close>

lemma is_duplicate_iff: "is_duplicate outfit existing \<longleftrightarrow> core_ids outfit \<in> core_ids ` set existing"
  by (induction existing) (auto simp: core_ids_def)

lemma generate_loop_stop:
  "\<not> (int (length outfits) < num_recommendations request \<and> attempts < max_attempts) \<Longrightarrow>
   generate_loop self base_product candidates request attempts outfits g = (outfits, g)"
  by (subst generate_loop.simps) auto

lemma generate_loop_Inl:
  "int (length outfits) < num_recommendations request \<and> attempts < max_attempts \<Longrightarrow>
   generate_single_outfit self base_product candidates request g = (Inl e, g') \<Longrightarrow>
   generate_loop self base_product candidates request attempts outfits g =
   generate_loop self base_product candidates request (attempts + 1) outfits g'"
  by (subst generate_loop.simps) auto

lemma generate_loop_Inr:
  "int (length outfits) < num_recommendations request \<and> attempts < max_attempts \<Longrightarrow>
   generate_single_outfit self base_product candidates request g = (Inr outfit, g') \<Longrightarrow>
   generate_loop self base_product candidates request attempts outfits g =
   generate_loop self base_product candidates request (attempts + 1)
     (if \<not> is_duplicate outfit outfits then outfits @ [outfit] else outfits) g'"
  by (subst generate_loop.simps) auto

lemma generate_loop_invariant:
  assumes "I outfits"
    and "\<And>outs outfit h h'. I outs \<Longrightarrow>
            generate_single_outfit self base_product candidates request h = (Inr outfit, h') \<Longrightarrow>
            int (length outs) < num_recommendations request \<Longrightarrow>
            \<not> is_duplicate outfit outs \<Longrightarrow> I (outs @ [outfit])"
  shows "I (fst (generate_loop self base_product candidates request attempts outfits g))"
  using assms
proof (induction self base_product candidates request attempts outfits g rule: generate_loop.induct)
  case (1 self base_product candidates request attempts outfits g)
  note step = "1.prems"(2)
  show ?case
  proof (cases "int (length outfits) < num_recommendations request \<and> attempts < max_attempts")
    case False
    then show ?thesis using "1.prems"(1) by (simp add: generate_loop_stop)
  next
    case True
    obtain x y where xy: "generate_single_outfit self base_product candidates request g = (x, y)"
      by (cases "generate_single_outfit self base_product candidates request g")
    show ?thesis
    proof (cases x)
      case (Inl e)
      have "I (fst (generate_loop self base_product candidates request (attempts + 1) outfits y))"
        by (rule "1.IH"(1)[OF True xy[symmetric] Inl "1.prems"(1)]) (rule step)
      then show ?thesis
        using generate_loop_Inl[OF True xy[unfolded Inl]] by simp
    next
      case (Inr b)
      let ?outs = "if \<not> is_duplicate b outfits then outfits @ [b] else outfits"
      have "I ?outs"
        using "1.prems"(1) step[OF "1.prems"(1) xy[unfolded Inr]] True by auto
      then have "I (fst (generate_loop self base_product candidates request (attempts + 1) ?outs y))"
        by (rule "1.IH"(2)[OF True xy[symmetric] Inr]) (rule step)
      then show ?thesis
        using generate_loop_Inr[OF True xy[unfolded Inr]] by simp
    qed
  qed
qed

lemma generate_loop_all:
  assumes "\<forall>outfit \<in> set outfits. P outfit"
    and "\<And>outfit h h'. generate_single_outfit self base_product candidates request h = (Inr outfit, h') \<Longrightarrow> P outfit"
  shows "\<forall>outfit \<in> set (fst (generate_loop self base_product candidates request attempts outfits g)). P outfit"
  by (rule generate_loop_invariant[where I="\<lambda>outs. \<forall>outfit \<in> set outs. P outfit"])
     (use assms in auto)

lemma generate_loop_distinct:
  assumes "distinct (map core_ids outfits)"
  shows "distinct (map core_ids (fst (generate_loop self base_product candidates request attempts outfits g)))"
  by (rule generate_loop_invariant[where I="\<lambda>outs. distinct (map core_ids outs)"])
     (use assms in \<open>auto simp: is_duplicate_iff\<close>)

lemma generate_loop_length:
  assumes "int (length outfits) \<le> m" "num_recommendations request \<le> m"
  shows "int (length (fst (generate_loop self base_product candidates request attempts outfits g))) \<le> m"
  by (rule generate_loop_invariant[where I="\<lambda>outs. int (length outs) \<le> m"])
     (use assms in auto)

lemma generate_loop_nonempty:
  assumes "outfits \<noteq> []"
  shows "fst (generate_loop self base_product candidates request attempts outfits g) \<noteq> []"
  by (rule generate_loop_invariant[where I="\<lambda>outs. outs \<noteq> []"])
     (use assms in auto)

lemma generate_loop_all_fail:
  assumes "\<And>h. \<exists>e h'. generate_single_outfit self base_product candidates request h = (Inl e, h')"
  shows "fst (generate_loop self base_product candidates request attempts outfits g) = outfits"
proof (rule generate_loop_invariant[where I="\<lambda>outs. outs = outfits"])
  show "outfits = outfits" by simp
next
  fix outs outfit h h'
  assume "generate_single_outfit self base_product candidates request h = (Inr outfit, h')"
  with assms[of h] show "outs @ [outfit] = outfits" by auto
qed

lemma generate_loop_first:
  assumes "0 < num_recommendations request"
    and "generate_single_outfit self base_product candidates request g = (Inr outfit, g')"
  shows "fst (generate_loop self base_product candidates request 0 [] g) \<noteq> []"
proof -
  have c: "int (length ([]::Outfit list)) < num_recommendations request \<and> 0 < max_attempts"
    using assms(1) by (simp add: max_attempts_def)
  have "generate_loop self base_product candidates request 0 [] g =
        generate_loop self base_product candidates request (0 + 1) [outfit] g'"
    using generate_loop_Inr[OF c assms(2)] by simp
  then show ?thesis
    using generate_loop_nonempty[of "[outfit]" self base_product candidates request "0 + 1" g'] by simp
qed

section \<open>The result of a request\<close>

lemma score_outfit_Inr: "\<exists>s. score_outfit scorer outfit = Inr s"
proof -
  obtain oc where oc: "score_occasion_fit scorer outfit = Inr oc"
    using score_occasion_fit_ok[of scorer outfit] by blast
  obtain se where se: "score_season_fit scorer outfit = Inr se"
    using score_season_fit_ok[of scorer outfit] by blast
  show ?thesis by (simp add: score_outfit_def oc se Let_def)
qed

lemma score_outfits_eq: "score_outfits scorer outfits = Inr (map (rescored scorer) outfits)"
proof (induction outfits)
  case Nil
  then show ?case by simp
next
  case (Cons outfit rest)
  obtain s where s: "score_outfit scorer outfit = Inr s"
    using score_outfit_Inr by blast
  show ?case by (simp add: Cons s rescored_def)
qed

lemma rescored_sel:
  "top_p (rescored scorer outfit) = top_p outfit" "bottom (rescored scorer outfit) = bottom outfit"
  "footwear (rescored scorer outfit) = footwear outfit"
  "accessories (rescored scorer outfit) = accessories outfit"
  "total_price (rescored scorer outfit) = total_price outfit"
  "core_ids (rescored scorer outfit) = core_ids outfit"
  by (simp_all add: rescored_def core_ids_def)

lemma py_take_is_take: "\<exists>k. py_take n xs = take k xs"
  by (auto simp: py_take_def)

lemma length_py_take: "0 \<le> n \<Longrightarrow> int (length (py_take n xs)) \<le> n"
  by (simp add: py_take_def)

lemma set_py_take: "set (py_take n xs) \<subseteq> set xs"
  using py_take_is_take[of n xs] by (auto dest: in_set_takeD)

lemma generate_recommendations_found:
  "by_id self (base_product_id request) = Some base_product \<Longrightarrow>
   fst (generate_recommendations self request g) =
     Inr (py_take (num_recommendations request) (ranked self request base_product g))"
  by (simp add: generate_recommendations_def Let_def score_outfits_eq ranked_def)

lemma generate_recommendations_not_found:
  "by_id self (base_product_id request) = None \<Longrightarrow>
   generate_recommendations self request g = (Inl ProductNotFound, g)"
  by (simp add: generate_recommendations_def)

lemma ranked_sorted: "sorted (map (\<lambda>x. - match_score x) (ranked self request base_product g))"
  unfolding ranked_def by (rule sorted_sort_key)

lemma ranked_distinct: "distinct (map core_ids (ranked self request base_product g))"
proof -
  let ?loop = "fst (generate_loop self base_product
                  (filter_candidates self base_product (RecommendationRequest.occasion request)
                     (RecommendationRequest.season request) (RecommendationRequest.max_budget request)
                     (style_preference request))
                  request 0 [] g)"
  have d: "distinct (map core_ids ?loop)"
    by (rule generate_loop_distinct) simp
  have m: "map core_ids (map (rescored (make_scorer request)) ?loop) = map core_ids ?loop"
    by (simp add: rescored_sel)
  have "distinct (map core_ids (map (rescored (make_scorer request)) ?loop))"
    unfolding m by (rule d)
  then have "distinct (map core_ids (sort_key (\<lambda>x. - match_score x) (map (rescored (make_scorer request)) ?loop)))"
    by (simp only: distinct_map distinct_sort set_sort)
  then show ?thesis unfolding ranked_def .
qed


lemma distinct_map_take: "distinct (map f xs) \<Longrightarrow> distinct (map f (take k xs))"
  by (simp add: take_map[symmetric] del: take_map)

lemma sorted_map_take: "sorted (map f xs) \<Longrightarrow> sorted (map f (take k xs))"
  using sorted_wrt_take[of "(\<le>)" "map f xs" k] by (simp add: take_map)

lemma ranked_stable:
  "filter (\<lambda>x. match_score x = k) (ranked self request base_product g) =
   filter (\<lambda>x. match_score x = k)
     (map (rescored (make_scorer request))
        (fst (generate_loop self base_product
                (filter_candidates self base_product (RecommendationRequest.occasion request)
                   (RecommendationRequest.season request) (RecommendationRequest.max_budget request)
                   (style_preference request))
                request 0 [] g)))"
proof -
  have "(\<lambda>x. match_score x = k) = (\<lambda>x::Outfit. - match_score x = - k)" by auto
  then show ?thesis
    unfolding ranked_def by (simp only: sort_key_stable)
qed

lemma ranked_length:
  "int (length (ranked self request base_product g)) \<le> max 0 (num_recommendations request)"
proof -
  have "int (length (fst (generate_loop self base_product
                (filter_candidates self base_product (RecommendationRequest.occasion request)
                   (RecommendationRequest.season request) (RecommendationRequest.max_budget request)
                   (style_preference request))
                request 0 [] g))) \<le> max 0 (num_recommendations request)"
    by (rule generate_loop_length) simp_all
  then show ?thesis unfolding ranked_def by simp
qed


lemma set_opt_filter:
  "set (case opt of None \<Rightarrow> xs | Some v \<Rightarrow> filter (P v) xs) \<subseteq> set xs"
  by (cases opt) auto

lemma set_filter_category:
  "set (filter_category self base_product occ sea mb sp cat) \<subseteq> set (by_category self cat)"
proof -
  define c0 where "c0 = by_category self cat"
  define c1 where "c1 = (case occ of None \<Rightarrow> c0
                | Some oc \<Rightarrow> filter (\<lambda>p. oc \<in> set (Product.occasion p)) c0)"
  define c2 where "c2 = (case sea of None \<Rightarrow> c1
                | Some se \<Rightarrow> filter (\<lambda>p. Product.season p = se \<or> Product.season p = ALL_SEASON) c1)"
  define c3 where "c3 = (case sp of None \<Rightarrow> c2
                | Some st \<Rightarrow> filter (\<lambda>p. style p = st \<or> style p = style base_product) c2)"
  define c4 where "c4 = (case mb of None \<Rightarrow> c3
                | Some budget \<Rightarrow>
                    if budget = 0 then c3
                    else filter (\<lambda>p. price p \<le> (budget - price base_product) * 1.5) c3)"
  have e: "filter_category self base_product occ sea mb sp cat = c4"
    unfolding filter_category_def Let_def c4_def c3_def c2_def c1_def c0_def ..
  have "set c1 \<subseteq> set c0" unfolding c1_def by (cases occ) auto
  moreover have "set c2 \<subseteq> set c1" unfolding c2_def by (cases sea) auto
  moreover have "set c3 \<subseteq> set c2" unfolding c3_def by (cases sp) auto
  moreover have "set c4 \<subseteq> set c3" unfolding c4_def by (cases mb) auto
  ultimately have "set c4 \<subseteq> set c0" by blast
  then show ?thesis unfolding e c0_def .
qed


lemma set_filter_candidates_new:
  "p \<in> set (filter_candidates (new_recommender catalog) base_product occ sea mb sp cat) \<Longrightarrow>
   p \<in> set catalog \<and> category p = cat"
proof -
  assume "p \<in> set (filter_candidates (new_recommender catalog) base_product occ sea mb sp cat)"
  then have "p \<in> set (filter_category (new_recommender catalog) base_product occ sea mb sp cat)"
    by (simp only: filter_candidates_eq)
  then have "p \<in> set (by_category (new_recommender catalog) cat)"
    using set_filter_category by blast
  then show ?thesis by (simp add: by_category_new_recommender)
qed

lemma ranked_outfit_ok:
  assumes "outfit \<in> set (ranked self request base_product g)"
  shows "\<exists>generated. outfit = rescored (make_scorer request) generated \<and>
           outfit_ok base_product
             (filter_candidates self base_product (RecommendationRequest.occasion request)
                (RecommendationRequest.season request) (RecommendationRequest.max_budget request)
                (style_preference request)) generated"
proof -
  let ?cands = "filter_candidates self base_product (RecommendationRequest.occasion request)
                (RecommendationRequest.season request) (RecommendationRequest.max_budget request)
                (style_preference request)"
  have all: "\<forall>outfit \<in> set (fst (generate_loop self base_product ?cands request 0 [] g)).
               outfit_ok base_product ?cands outfit"
    by (rule generate_loop_all) (simp_all add: generate_single_outfit_ok)
  from assms obtain generated where
    "generated \<in> set (fst (generate_loop self base_product ?cands request 0 [] g))"
    "outfit = rescored (make_scorer request) generated"
    unfolding ranked_def by auto
  with all show ?thesis by blast
qed

lemma result_outfit_ok:
  assumes "by_id self (base_product_id request) = Some base_product"
    and "fst (generate_recommendations self request g) = Inr outfits"
    and "outfit \<in> set outfits"
  shows "\<exists>generated. outfit = rescored (make_scorer request) generated \<and>
           outfit_ok base_product
             (filter_candidates self base_product (RecommendationRequest.occasion request)
                (RecommendationRequest.season request) (RecommendationRequest.max_budget request)
                (style_preference request)) generated"
proof -
  from assms(1,2) have e: "outfits = py_take (num_recommendations request) (ranked self request base_product g)"
    by (simp add: generate_recommendations_found)
  have "outfit \<in> set (py_take (num_recommendations request) (ranked self request base_product g))"
    using assms(3) unfolding e .
  then have "outfit \<in> set (ranked self request base_product g)"
    by (rule subsetD[OF set_py_take])
  then show ?thesis by (rule ranked_outfit_ok)
qed

lemma slot_ok_catalog:
  assumes "base_product \<in> set catalog"
    and "slot_ok base_product
           (filter_candidates (new_recommender catalog) base_product occ sea mb sp) cat p"
  shows "p \<in> set catalog \<and> category p = cat"
proof (cases "category base_product = cat")
  case True
  with assms show ?thesis by (simp add: slot_ok_def)
next
  case False
  with assms(2) have "p \<in> selectable base_product (filter_candidates (new_recommender catalog) base_product occ sea mb sp cat)"
    by (simp add: slot_ok_def)
  then have "p \<in> set (filter_candidates (new_recommender catalog) base_product occ sea mb sp cat)"
    using selectable_subset by blast
  then show ?thesis by (rule set_filter_candidates_new)
qed



section \<open>The recommender on the small catalog\<close>

lemma ex_ids: "id_p ex_top = ''t1''" "id_p ex_bottom = ''b1''" "id_p ex_footwear = ''f1''"
  "id_p ex_watch = ''a1''" "id_p ex_scarf = ''a2''"
  by (simp_all add: ex_top_def ex_bottom_def ex_footwear_def ex_watch_def ex_scarf_def)

lemma ex_categories: "category ex_top = TOP" "category ex_bottom = BOTTOM"
  "category ex_footwear = FOOTWEAR" "category ex_watch = ACCESSORY" "category ex_scarf = ACCESSORY"
  by (simp_all add: ex_top_def ex_bottom_def ex_footwear_def ex_watch_def ex_scarf_def)

lemma ex_request_sel:
  "base_product_id (ex_request k) = k" "RecommendationRequest.occasion (ex_request k) = None"
  "RecommendationRequest.season (ex_request k) = None"
  "RecommendationRequest.max_budget (ex_request k) = None"
  "style_preference (ex_request k) = None" "num_recommendations (ex_request k) = 1"
  by (simp_all add: ex_request_def)

lemma make_scorer_ex_request: "make_scorer (ex_request k) = ex_scorer None"
  by (simp add: make_scorer_def ex_scorer_def ex_request_sel)

lemma by_id_ex_catalog: "by_id (new_recommender ex_catalog) ''a1'' = Some ex_watch"
  by (simp add: new_recommender_def ex_catalog_def ex_ids)

lemma by_id_ex_core_catalog: "by_id (new_recommender ex_core_catalog) ''t1'' = Some ex_top"
  by (simp add: new_recommender_def ex_core_catalog_def ex_ids)

lemma filter_candidates_none:
  "filter_candidates (new_recommender catalog) base_product None None None None cat =
   filter (\<lambda>p. category p = cat) catalog"
  by (simp add: filter_candidates_eq filter_category_def by_category_new_recommender)

lemma ex_candidates:
  "filter_candidates (new_recommender ex_catalog) base_product None None None None TOP = [ex_top]"
  "filter_candidates (new_recommender ex_catalog) base_product None None None None BOTTOM = [ex_bottom]"
  "filter_candidates (new_recommender ex_catalog) base_product None None None None FOOTWEAR = [ex_footwear]"
  "filter_candidates (new_recommender ex_catalog) base_product None None None None ACCESSORY = [ex_watch, ex_scarf]"
  by (simp_all add: filter_candidates_none ex_catalog_def ex_categories)

lemma ex_core_candidates:
  "filter_candidates (new_recommender ex_core_catalog) base_product None None None None TOP = [ex_top]"
  "filter_candidates (new_recommender ex_core_catalog) base_product None None None None BOTTOM = [ex_bottom]"
  "filter_candidates (new_recommender ex_core_catalog) base_product None None None None FOOTWEAR = [ex_footwear]"
  "filter_candidates (new_recommender ex_core_catalog) base_product None None None None ACCESSORY = []"
  by (simp_all add: filter_candidates_none ex_core_catalog_def ex_categories)

lemma select_item_forced:
  assumes "cands \<noteq> []" "selectable base_product cands = {p}"
  shows "select_item self cands base_product g = (Inr p, snd (rng_next g))"
  using select_item_nonempty[where self=self and base_product=base_product and g=g, OF assms(1)]
  unfolding assms(2) by simp

lemma selectable_single: "id_p c \<noteq> id_p base_product \<Longrightarrow> selectable base_product [c] = {c}"
  by (auto simp: selectable_def)

lemma selectable_ex_accessories: "selectable ex_watch [ex_watch, ex_scarf] = {ex_scarf}"
  by (auto simp: selectable_def ex_ids)

lemma selectable_only_base: "selectable ex_watch [ex_watch] = {ex_watch}"
  by (auto simp: selectable_def)

lemma rng_next_zero: "rng_next zero_rng = (0, zero_rng)"
  by (simp add: rng_next_def zero_rng_def)

lemma random_randint_zero: "random_randint (Suc 0) 3 zero_rng = (Suc 0, zero_rng)"
  by (simp add: random_randint_def rng_next_zero)

lemma select_item_ex:
  "select_item self [ex_top] ex_watch zero_rng = (Inr ex_top, zero_rng)"
  "select_item self [ex_bottom] ex_watch zero_rng = (Inr ex_bottom, zero_rng)"
  "select_item self [ex_footwear] ex_watch zero_rng = (Inr ex_footwear, zero_rng)"
  "select_item self [ex_bottom] ex_top zero_rng = (Inr ex_bottom, zero_rng)"
  "select_item self [ex_footwear] ex_top zero_rng = (Inr ex_footwear, zero_rng)"
  "select_item self [ex_watch, ex_scarf] ex_watch zero_rng = (Inr ex_scarf, zero_rng)"
  "select_item self [ex_watch] ex_watch zero_rng = (Inr ex_watch, zero_rng)"
  by (simp_all add: select_item_forced selectable_single selectable_ex_accessories
        selectable_only_base ex_ids rng_next_zero)

lemma generate_single_outfit_ex:
  "generate_single_outfit self ex_watch
     (filter_candidates (new_recommender ex_catalog) ex_watch None None None None) request zero_rng =
   (Inr ex_outfit_scarf, zero_rng)"
  unfolding generate_single_outfit_def select_slot_def ex_candidates
  by (simp add: ex_categories select_item_ex random_randint_zero force_accessory_def
        ex_outfit_scarf_def)

lemma generate_single_outfit_ex_core:
  "generate_single_outfit self ex_top
     (filter_candidates (new_recommender ex_core_catalog) ex_top None None None None) request zero_rng =
   (Inr ex_outfit, zero_rng)"
  unfolding generate_single_outfit_def select_slot_def ex_core_candidates
  by (simp add: ex_categories select_item_ex random_randint_zero force_accessory_def
        ex_outfit_def)


lemma generate_loop_once:
  assumes "num_recommendations request = 1"
    and "generate_single_outfit self base_product candidates request g = (Inr outfit, g')"
  shows "generate_loop self base_product candidates request 0 [] g = ([outfit], g')"
proof -
  have c: "int (length ([]::Outfit list)) < num_recommendations request \<and> 0 < max_attempts"
    using assms(1) by (simp add: max_attempts_def)
  have "generate_loop self base_product candidates request 0 [] g =
        generate_loop self base_product candidates request (0 + 1) [outfit] g'"
    using generate_loop_Inr[OF c assms(2)] by simp
  also have "\<dots> = ([outfit], g')"
    by (rule generate_loop_stop) (simp add: assms(1))
  finally show ?thesis .
qed

lemma score_outfit_ex:
  "score_outfit (ex_scorer None) ex_outfit = Inr 0.6525"
  "score_outfit (ex_scorer None) ex_outfit_scarf = Inr 0.6975"
  by (simp_all add: score_outfit_def Let_def score_fits_ex_scorer score_budget_ex_none
        score_color_harmony_ex_outfit score_color_harmony_ex_outfit_scarf
        score_style_ex_outfit score_style_ex_outfit_scarf
        COLOR_WEIGHT_def STYLE_WEIGHT_def OCCASION_WEIGHT_def SEASON_WEIGHT_def BUDGET_WEIGHT_def)

lemma rescored_ex:
  "rescored (ex_scorer None) ex_outfit = ex_outfit\<lparr>match_score := 0.6525\<rparr>"
  "rescored (ex_scorer None) ex_outfit_scarf = ex_outfit_scarf\<lparr>match_score := 0.6975\<rparr>"
  by (simp_all add: rescored_def score_outfit_ex)

lemma py_take_one: "py_take 1 [x] = [x]"
  by (simp add: py_take_def)

lemma ranked_ex:
  "ranked (new_recommender ex_catalog) (ex_request ''a1'') ex_watch zero_rng =
     [ex_outfit_scarf\<lparr>match_score := 0.6975\<rparr>]"
  unfolding ranked_def ex_request_sel make_scorer_ex_request
  by (simp add: generate_loop_once[OF ex_request_sel(6) generate_single_outfit_ex] rescored_ex)

lemma ranked_ex_core:
  "ranked (new_recommender ex_core_catalog) (ex_request ''t1'') ex_top zero_rng =
     [ex_outfit\<lparr>match_score := 0.6525\<rparr>]"
  unfolding ranked_def ex_request_sel make_scorer_ex_request
  by (simp add: generate_loop_once[OF ex_request_sel(6) generate_single_outfit_ex_core] rescored_ex)

lemma generate_recommendations_ex:
  "fst (generate_recommendations (new_recommender ex_catalog) (ex_request ''a1'') zero_rng) =
     Inr [ex_outfit_scarf\<lparr>match_score := 0.6975\<rparr>]"
  using generate_recommendations_found[of "new_recommender ex_catalog" "ex_request ''a1''" ex_watch zero_rng]
  by (simp add: ex_request_sel by_id_ex_catalog ranked_ex py_take_one)

lemma generate_recommendations_ex_core:
  "fst (generate_recommendations (new_recommender ex_core_catalog) (ex_request ''t1'') zero_rng) =
     Inr [ex_outfit\<lparr>match_score := 0.6525\<rparr>]"
  using generate_recommendations_found[of "new_recommender ex_core_catalog" "ex_request ''t1''" ex_top zero_rng]
  by (simp add: ex_request_sel by_id_ex_core_catalog ranked_ex_core py_take_one)

text \<open>On this catalog every choice is forced, whatever the random stream draws.\<close>

lemma distinct_singleton: "distinct xs \<Longrightarrow> set xs \<subseteq> {a} \<Longrightarrow> xs \<noteq> [] \<Longrightarrow> xs = [a]"
proof (cases xs)
  case Nil
  assume "xs \<noteq> []"
  with Nil show ?thesis by simp
next
  case (Cons x ys)
  assume d: "distinct xs" and s: "set xs \<subseteq> {a}"
  from s Cons have x: "x = a" by simp
  have "ys = []"
  proof (cases ys)
    case Nil
    then show ?thesis .
  next
    case (Cons y zs)
    with s \<open>xs = x # ys\<close> have "y = a" by simp
    with d x \<open>xs = x # ys\<close> Cons show ?thesis by simp
  qed
  with x Cons show ?thesis by simp
qed

lemma generate_single_outfit_ex_any:
  "\<exists>g'. generate_single_outfit self ex_watch
     (filter_candidates (new_recommender ex_catalog) ex_watch None None None None) request g =
   (Inr ex_outfit_scarf, g')"
proof -
  let ?cands = "filter_candidates (new_recommender ex_catalog) ex_watch None None None None"
  have "\<exists>outfit g'. generate_single_outfit self ex_watch ?cands request g = (Inr outfit, g')"
    by (rule generate_single_outfit_succeeds) (simp_all add: ex_candidates)
  then obtain outfit g' where
    gen: "generate_single_outfit self ex_watch ?cands request g = (Inr outfit, g')"
    by blast
  from generate_single_outfit_ok[OF gen] have ok: "outfit_ok ex_watch ?cands outfit" .
  have t: "top_p outfit = ex_top" and b: "bottom outfit = ex_bottom" and f: "footwear outfit = ex_footwear"
    using ok unfolding outfit_ok_def slot_ok_def ex_candidates
    by (simp_all add: ex_categories selectable_single ex_ids)
  have "distinct (accessories outfit)" "set (accessories outfit) \<subseteq> {ex_scarf}"
       "accessories outfit \<noteq> []"
    using ok unfolding outfit_ok_def ex_candidates selectable_ex_accessories by simp_all
  then have a: "accessories outfit = [ex_scarf]" by (rule distinct_singleton)
  have m: "match_score outfit = 0"
    using ok unfolding outfit_ok_def by simp
  have p: "total_price outfit = price ex_top + price ex_bottom + price ex_footwear + sum_list (map price [ex_scarf])"
    using ok unfolding outfit_ok_def t b f a by simp
  have "outfit = ex_outfit_scarf"
    unfolding ex_outfit_scarf_def make_outfit_def using t b f a m p by (cases outfit) simp
  with gen show ?thesis by blast
qed

lemma generate_loop_forced:
  assumes "\<And>h. \<exists>h'. generate_single_outfit self base_product candidates request h = (Inr outfit, h')"
    and "1 \<le> num_recommendations request"
  shows "fst (generate_loop self base_product candidates request 0 [] g) = [outfit]"
proof -
  from assms(1)[of g] obtain g' where
    g': "generate_single_outfit self base_product candidates request g = (Inr outfit, g')"
    by blast
  have c: "int (length ([]::Outfit list)) < num_recommendations request \<and> 0 < max_attempts"
    using assms(2) by (simp add: max_attempts_def)
  have e: "generate_loop self base_product candidates request 0 [] g =
        generate_loop self base_product candidates request (0 + 1) [outfit] g'"
    using generate_loop_Inr[OF c g'] by simp
  have "fst (generate_loop self base_product candidates request (0 + 1) [outfit] g') = [outfit]"
  proof (rule generate_loop_invariant[where I="\<lambda>outs. outs = [outfit]"])
    show "[outfit] = [outfit]" by simp
  next
    fix outs x h h'
    assume "outs = [outfit]"
      and "generate_single_outfit self base_product candidates request h = (Inr x, h')"
      and "\<not> is_duplicate x outs"
    with assms(1)[of h] show "outs @ [x] = [outfit]" by auto
  qed
  with e show ?thesis by simp
qed

lemma py_take_single: "1 \<le> n \<Longrightarrow> py_take n [x] = [x]"
  by (simp add: py_take_def)

lemma generate_recommendations_ex_any:
  assumes "1 \<le> n"
  shows "fst (generate_recommendations (new_recommender ex_catalog)
                ((ex_request ''a1'')\<lparr>num_recommendations := n\<rparr>) g) =
         Inr [ex_outfit_scarf\<lparr>match_score := 0.6975\<rparr>]"
proof -
  let ?req = "(ex_request ''a1'')\<lparr>num_recommendations := n\<rparr>"
  have sel: "base_product_id ?req = ''a1''" "RecommendationRequest.occasion ?req = None"
    "RecommendationRequest.season ?req = None" "RecommendationRequest.max_budget ?req = None"
    "style_preference ?req = None" "num_recommendations ?req = n"
    by (simp_all add: ex_request_def)
  have sc: "make_scorer ?req = ex_scorer None"
    by (simp add: make_scorer_def ex_scorer_def sel)
  have loop: "fst (generate_loop (new_recommender ex_catalog) ex_watch
           (filter_candidates (new_recommender ex_catalog) ex_watch None None None None) ?req 0 [] g) =
        [ex_outfit_scarf]"
    by (rule generate_loop_forced) (simp_all add: generate_single_outfit_ex_any sel assms)
  have r: "ranked (new_recommender ex_catalog) ?req ex_watch g = [ex_outfit_scarf\<lparr>match_score := 0.6975\<rparr>]"
    unfolding ranked_def sel sc loop by (simp add: rescored_ex)
  show ?thesis
    using generate_recommendations_found[of "new_recommender ex_catalog" ?req ex_watch g]
    by (simp add: sel by_id_ex_catalog r py_take_single assms)
qed

lemma ex_occasions: "Product.occasion ex_top = [EVERYDAY]" "Product.occasion ex_bottom = [EVERYDAY]"
  "Product.occasion ex_footwear = [WORK]" "Product.occasion ex_watch = [WORK]"
  "Product.occasion ex_scarf = [EVERYDAY]"
  by (simp_all add: ex_top_def ex_bottom_def ex_footwear_def ex_watch_def ex_scarf_def)

lemma ex_seasons: "Product.season ex_top = ALL_SEASON" "Product.season ex_bottom = ALL_SEASON"
  "Product.season ex_footwear = WINTER" "Product.season ex_watch = ALL_SEASON"
  "Product.season ex_scarf = WINTER"
  by (simp_all add: ex_top_def ex_bottom_def ex_footwear_def ex_watch_def ex_scarf_def)

lemma ex_catalog_ids: "id_p ` set ex_catalog = {''t1'', ''b1'', ''f1'', ''a1'', ''a2''}"
  by (simp add: ex_catalog_def ex_ids)

lemma ex_core_catalog_ids: "id_p ` set ex_core_catalog = {''t1'', ''b1'', ''f1''}"
  by (simp add: ex_core_catalog_def ex_ids)

lemma generate_recommendations_no_candidates:
  assumes "by_id self (base_product_id request) = Some base_product"
    and "(category base_product \<noteq> TOP \<and>
            filter_candidates self base_product (RecommendationRequest.occasion request)
              (RecommendationRequest.season request) (RecommendationRequest.max_budget request)
              (style_preference request) TOP = []) \<or>
         (category base_product \<noteq> BOTTOM \<and>
            filter_candidates self base_product (RecommendationRequest.occasion request)
              (RecommendationRequest.season request) (RecommendationRequest.max_budget request)
              (style_preference request) BOTTOM = []) \<or>
         (category base_product \<noteq> FOOTWEAR \<and>
            filter_candidates self base_product (RecommendationRequest.occasion request)
              (RecommendationRequest.season request) (RecommendationRequest.max_budget request)
              (style_preference request) FOOTWEAR = [])"
  shows "fst (generate_recommendations self request g) = Inr []"
proof -
  let ?cands = "filter_candidates self base_product (RecommendationRequest.occasion request)
              (RecommendationRequest.season request) (RecommendationRequest.max_budget request)
              (style_preference request)"
  have "fst (generate_loop self base_product ?cands request 0 [] g) = []"
  proof (rule generate_loop_all_fail)
    fix h
    from generate_single_outfit_fails[OF assms(2), of self request h]
    show "\<exists>e h'. generate_single_outfit self base_product ?cands request h = (Inl e, h')"
      by blast
  qed
  then have "ranked self request base_product g = []"
    unfolding ranked_def by simp
  then show ?thesis
    using generate_recommendations_found[OF assms(1), of g] by (simp add: py_take_def)
qed

lemma ex_catalog_distinct: "distinct (map id_p ex_catalog)"
  by (simp add: ex_catalog_def ex_ids)

section \<open>The claims\<close>

text \<open>
  Claim C1. \<open>generate_recommendations\<close> fails exactly when the request's
  \<open>base_product_id\<close> is the id of no product of the catalog, and then with "product not
  found" and no outfits; when the base product is present it returns a list, whatever the
  candidates and the random draws are.
\<close>

theorem generate_recommendations_fails_iff:
  "(base_product_id request \<notin> id_p ` set catalog \<longrightarrow>
      generate_recommendations (new_recommender catalog) request g = (Inl ProductNotFound, g)) \<and>
   (base_product_id request \<in> id_p ` set catalog \<longrightarrow>
      (\<exists>outfits. fst (generate_recommendations (new_recommender catalog) request g) = Inr outfits))"
proof (intro conjI impI)
  assume "base_product_id request \<notin> id_p ` set catalog"
  then have "by_id (new_recommender catalog) (base_product_id request) = None"
    by (simp add: by_id_new_recommender_None)
  then show "generate_recommendations (new_recommender catalog) request g = (Inl ProductNotFound, g)"
    by (rule generate_recommendations_not_found)
next
  assume "base_product_id request \<in> id_p ` set catalog"
  then have "by_id (new_recommender catalog) (base_product_id request) \<noteq> None"
    by (simp add: by_id_new_recommender_None)
  then obtain base_product where "by_id (new_recommender catalog) (base_product_id request) = Some base_product"
    by blast
  from generate_recommendations_found[OF this]
  show "\<exists>outfits. fst (generate_recommendations (new_recommender catalog) request g) = Inr outfits"
    by blast
qed

text \<open>
  The theorem at the small catalog: an unknown id fails; the watch as base product gives
  one outfit; with the occasion "party", which no product lists, the top slot has no
  candidate, every attempt is dropped and the result is the empty list
  (\<open>generate_recommendations_no_candidates\<close>).
\<close>

theorem generate_recommendations_fails_iff_witness:
  "generate_recommendations (new_recommender ex_catalog) (ex_request ''zz'') zero_rng =
     (Inl ProductNotFound, zero_rng) \<and>
   fst (generate_recommendations (new_recommender ex_catalog) (ex_request ''a1'') zero_rng) =
     Inr [ex_outfit_scarf\<lparr>match_score := 0.6975\<rparr>] \<and>
   fst (generate_recommendations (new_recommender ex_catalog)
          ((ex_request ''a1'')\<lparr>occasion := Some PARTY\<rparr>) zero_rng) = Inr []"
proof (intro conjI)
  show "generate_recommendations (new_recommender ex_catalog) (ex_request ''zz'') zero_rng =
     (Inl ProductNotFound, zero_rng)"
    using generate_recommendations_fails_iff[of "ex_request ''zz''" ex_catalog zero_rng]
    by (simp add: ex_request_sel ex_catalog_ids)
next
  from generate_recommendations_fails_iff[of "ex_request ''a1''" ex_catalog zero_rng]
  obtain outfits where
    "fst (generate_recommendations (new_recommender ex_catalog) (ex_request ''a1'') zero_rng) = Inr outfits"
    by (auto simp: ex_request_sel ex_catalog_ids)
  then show "fst (generate_recommendations (new_recommender ex_catalog) (ex_request ''a1'') zero_rng) =
     Inr [ex_outfit_scarf\<lparr>match_score := 0.6975\<rparr>]"
    by (simp add: generate_recommendations_ex)
next
  let ?req = "(ex_request ''a1'')\<lparr>occasion := Some PARTY\<rparr>"
  have sel: "base_product_id ?req = ''a1''" "RecommendationRequest.occasion ?req = Some PARTY"
    "RecommendationRequest.season ?req = None" "RecommendationRequest.max_budget ?req = None"
    "style_preference ?req = None"
    by (simp_all add: ex_request_def)
  have e: "filter_candidates (new_recommender ex_catalog) ex_watch (Some PARTY) None None None TOP = []"
    by (simp add: filter_candidates_eq filter_category_def by_category_new_recommender
          ex_catalog_def ex_categories ex_occasions)
  from generate_recommendations_fails_iff[of ?req ex_catalog zero_rng]
  obtain outfits where
    "fst (generate_recommendations (new_recommender ex_catalog) ?req zero_rng) = Inr outfits"
    by (auto simp: sel ex_catalog_ids)
  moreover have "fst (generate_recommendations (new_recommender ex_catalog) ?req zero_rng) = Inr []"
    by (rule generate_recommendations_no_candidates[where base_product=ex_watch])
       (simp_all add: sel by_id_ex_catalog ex_categories e)
  ultimately show "fst (generate_recommendations (new_recommender ex_catalog) ?req zero_rng) = Inr []"
    by simp
qed

text \<open>
  Claim C2, as the specification states it, fails: for a non-empty candidate list the
  selected item can be the base product. When every candidate carries the base product's
  id nothing is scored, \<open>top_candidates\<close> is empty and the fallback branch draws from the
  unfiltered candidates. Below, the watch selected for the watch.
\<close>

theorem select_item_returns_base:
  "[ex_watch] \<noteq> [] \<and>
   select_item (new_recommender ex_catalog) [ex_watch] ex_watch zero_rng = (Inr ex_watch, zero_rng)"
  by (simp add: select_item_ex)

text \<open>
  Claim C2, amended. \<open>select_item\<close> fails with "no candidates available" if and only if
  the candidate list is empty. For a non-empty list it returns an element of the list;
  if some candidate has another id than the base product's, the returned item has another
  id too and is one of the first \<open>max 3 (count div 3)\<close> of the candidates with another id,
  sorted (stably) descending by compatibility plus the 0.2 style bonus, \<open>count\<close> being
  their number. If all candidates carry the base product's id, the fallback returns one of
  them.
\<close>

theorem select_item_amended:
  "select_item self [] base_product g = (Inl NoCandidatesAvailable, g) \<and>
   (candidates \<noteq> [] \<longrightarrow>
      (\<exists>p. fst (select_item self candidates base_product g) = Inr p \<and> p \<in> set candidates \<and>
           ((\<exists>c \<in> set candidates. id_p c \<noteq> id_p base_product) \<longrightarrow>
              id_p p \<noteq> id_p base_product \<and>
              p \<in> snd ` set (take (max 3 (length (filter (\<lambda>c. id_p c \<noteq> id_p base_product) candidates) div 3))
                     (sort_key (\<lambda>x. - fst x)
                        (map (\<lambda>c. (get_compatibility self base_product c +
                                     (if style c = style base_product then 0.2 else 0), c))
                           (filter (\<lambda>c. id_p c \<noteq> id_p base_product) candidates)))))))"
proof (intro conjI impI)
  show "select_item self [] base_product g = (Inl NoCandidatesAvailable, g)"
    by (rule select_item_empty)
next
  assume ne: "candidates \<noteq> []"
  show "\<exists>p. fst (select_item self candidates base_product g) = Inr p \<and> p \<in> set candidates \<and>
           ((\<exists>c \<in> set candidates. id_p c \<noteq> id_p base_product) \<longrightarrow>
              id_p p \<noteq> id_p base_product \<and>
              p \<in> snd ` set (take (max 3 (length (filter (\<lambda>c. id_p c \<noteq> id_p base_product) candidates) div 3))
                     (sort_key (\<lambda>x. - fst x)
                        (map (\<lambda>c. (get_compatibility self base_product c +
                                     (if style c = style base_product then 0.2 else 0), c))
                           (filter (\<lambda>c. id_p c \<noteq> id_p base_product) candidates)))))"
  proof (cases "top_candidates self base_product candidates = []")
    case True
    then have all: "\<forall>c \<in> set candidates. id_p c = id_p base_product"
      by (simp add: top_candidates_Nil)
    from select_item_fallback[OF ne True, of g] obtain p where
      "p \<in> set candidates" "select_item self candidates base_product g = (Inr p, snd (rng_next g))"
      by blast
    with all show ?thesis by auto
  next
    case False
    from select_item_top[OF False, of g] obtain x where
      x: "x \<in> set (top_candidates self base_product candidates)"
         "select_item self candidates base_product g = (Inr (snd x), snd (rng_next g))"
      by blast
    have "snd x \<in> snd ` set (top_candidates self base_product candidates)"
      using x(1) by (rule imageI)
    then have "snd x \<in> snd ` set (take (max 3 (length (filter (\<lambda>c. id_p c \<noteq> id_p base_product) candidates) div 3))
                     (sort_key (\<lambda>x. - fst x)
                        (map (\<lambda>c. (get_compatibility self base_product c +
                                     (if style c = style base_product then 0.2 else 0), c))
                           (filter (\<lambda>c. id_p c \<noteq> id_p base_product) candidates))))"
      unfolding top_candidates_eq candidate_score_def .
    with top_candidates_subset[OF x(1)] x(2) show ?thesis by auto
  qed
qed

text \<open>
  The theorem at the candidates watch and scarf with the watch as base product: the scarf
  is the only candidate with another id, so it is selected.
\<close>

theorem select_item_amended_witness:
  "select_item (new_recommender ex_catalog) [] ex_watch zero_rng = (Inl NoCandidatesAvailable, zero_rng) \<and>
   fst (select_item (new_recommender ex_catalog) [ex_watch, ex_scarf] ex_watch zero_rng) = Inr ex_scarf"
proof -
  from select_item_amended[of "new_recommender ex_catalog" ex_watch zero_rng "[ex_watch, ex_scarf]"]
  have 1: "select_item (new_recommender ex_catalog) [] ex_watch zero_rng = (Inl NoCandidatesAvailable, zero_rng)"
    and "\<exists>p. fst (select_item (new_recommender ex_catalog) [ex_watch, ex_scarf] ex_watch zero_rng) = Inr p \<and>
           p \<in> set [ex_watch, ex_scarf] \<and> id_p p \<noteq> id_p ex_watch"
    by (auto simp: ex_ids)
  then obtain p where p: "fst (select_item (new_recommender ex_catalog) [ex_watch, ex_scarf] ex_watch zero_rng) = Inr p"
    "p \<in> set [ex_watch, ex_scarf]" "id_p p \<noteq> id_p ex_watch"
    by blast
  from p(2,3) have "p = ex_scarf" by auto
  with 1 p(1) show ?thesis by simp
qed

text \<open>
  Claim C3. The compatibility of two products does not depend on their order, lies in
  \<open>[0,1]\<close>, and is the default 0.5 for every pair that was never indexed, in particular
  when one of the two ids is not an id of the catalog.
\<close>

theorem compatibility_symmetric_bounded:
  "get_compatibility (new_recommender catalog) p q = get_compatibility (new_recommender catalog) q p \<and>
   0 \<le> get_compatibility (new_recommender catalog) p q \<and>
   get_compatibility (new_recommender catalog) p q \<le> 1 \<and>
   (compatibility_cache (new_recommender catalog) (sorted_key (id_p p) (id_p q)) = None \<longrightarrow>
      get_compatibility (new_recommender catalog) p q = 0.5) \<and>
   (id_p p \<notin> id_p ` set catalog \<or> id_p q \<notin> id_p ` set catalog \<longrightarrow>
      get_compatibility (new_recommender catalog) p q = 0.5)"
proof -
  let ?self = "new_recommender catalog"
  let ?k = "sorted_key (id_p p) (id_p q)"
  have ok: "cache_ok (id_p ` set catalog) (compatibility_cache ?self)"
    by (rule new_recommender_cache_ok)
  have range: "0 \<le> get_compatibility ?self p q \<and> get_compatibility ?self p q \<le> 1"
  proof (cases "compatibility_cache ?self ?k")
    case None
    then show ?thesis by (simp add: get_compatibility_def)
  next
    case (Some v)
    with ok have "0 \<le> v \<and> v \<le> 1" unfolding cache_ok_def by blast
    with Some show ?thesis by (simp add: get_compatibility_def)
  qed
  have dflt: "compatibility_cache ?self ?k = None \<Longrightarrow> get_compatibility ?self p q = 0.5"
    by (simp add: get_compatibility_def)
  have absent: "compatibility_cache ?self ?k = None"
    if "id_p p \<notin> id_p ` set catalog \<or> id_p q \<notin> id_p ` set catalog"
  proof (cases "compatibility_cache ?self ?k")
    case None
    then show ?thesis .
  next
    case (Some v)
    with ok have "fst ?k \<in> id_p ` set catalog \<and> snd ?k \<in> id_p ` set catalog"
      unfolding cache_ok_def by blast
    then have "id_p p \<in> id_p ` set catalog \<and> id_p q \<in> id_p ` set catalog"
      by (auto simp: sorted_key_def split: if_splits)
    with that show ?thesis by blast
  qed
  show ?thesis
  proof (intro conjI impI)
    show "get_compatibility ?self p q = get_compatibility ?self q p"
      by (rule get_compatibility_commute)
    show "0 \<le> get_compatibility ?self p q" using range by simp
    show "get_compatibility ?self p q \<le> 1" using range by simp
    show "get_compatibility ?self p q = 0.5" if "compatibility_cache ?self ?k = None"
      using that by (rule dflt)
    show "get_compatibility ?self p q = 0.5"
      if "id_p p \<notin> id_p ` set catalog \<or> id_p q \<notin> id_p ` set catalog"
      using absent[OF that] by (rule dflt)
  qed
qed

text \<open>
  The theorem at top and bottom of the small catalog, and at the scarf against the
  catalog without accessories, where the scarf was never indexed.
\<close>

theorem compatibility_symmetric_bounded_witness:
  "get_compatibility (new_recommender ex_catalog) ex_top ex_bottom =
     get_compatibility (new_recommender ex_catalog) ex_bottom ex_top \<and>
   0 \<le> get_compatibility (new_recommender ex_catalog) ex_top ex_bottom \<and>
   get_compatibility (new_recommender ex_catalog) ex_top ex_bottom \<le> 1 \<and>
   get_compatibility (new_recommender ex_core_catalog) ex_top ex_scarf = 0.5"
  using compatibility_symmetric_bounded[of ex_catalog ex_top ex_bottom]
    compatibility_symmetric_bounded[of ex_core_catalog ex_top ex_scarf]
  by (simp add: ex_core_catalog_ids ex_ids)

text \<open>
  Claim C4. For every outfit, \<open>score_outfit\<close> returns (it never raises) the weighted sum
  of the five sub-scores with the fixed weights 0.30 (colour), 0.25 (style), 0.20
  (occasion), 0.15 (season) and 0.10 (budget); the weights sum to exactly 1 and the total
  lies in \<open>[0,1]\<close>. The scorer's budget, when present, is not negative (the data model
  asks for a positive one); arithmetic is exact.
\<close>

theorem score_outfit_weighted_sum:
  assumes "\<forall>b. OutfitScorer.max_budget self = Some b \<longrightarrow> 0 \<le> b"
  shows "\<exists>occasion_score season_score total.
           score_occasion_fit self outfit = Inr occasion_score \<and>
           score_season_fit self outfit = Inr season_score \<and>
           score_outfit self outfit = Inr total \<and>
           total = score_color_harmony outfit * COLOR_WEIGHT +
                   score_style_compatibility outfit * STYLE_WEIGHT +
                   occasion_score * OCCASION_WEIGHT +
                   season_score * SEASON_WEIGHT +
                   score_budget self outfit * BUDGET_WEIGHT \<and>
           0 \<le> total \<and> total \<le> 1 \<and>
           COLOR_WEIGHT = 0.30 \<and> STYLE_WEIGHT = 0.25 \<and> OCCASION_WEIGHT = 0.20 \<and>
           SEASON_WEIGHT = 0.15 \<and> BUDGET_WEIGHT = 0.10 \<and>
           COLOR_WEIGHT + STYLE_WEIGHT + OCCASION_WEIGHT + SEASON_WEIGHT + BUDGET_WEIGHT = 1"
proof -
  obtain oc where oc: "score_occasion_fit self outfit = Inr oc" "0.4 \<le> oc" "oc \<le> 1"
    using score_occasion_fit_ok by blast
  obtain se where se: "score_season_fit self outfit = Inr se" "0.4 \<le> se" "se \<le> 1"
    using score_season_fit_ok by blast
  define total where
    "total = score_color_harmony outfit * COLOR_WEIGHT +
             score_style_compatibility outfit * STYLE_WEIGHT +
             oc * OCCASION_WEIGHT + se * SEASON_WEIGHT + score_budget self outfit * BUDGET_WEIGHT"
  have w: "COLOR_WEIGHT = 0.30" "STYLE_WEIGHT = 0.25" "OCCASION_WEIGHT = 0.20"
    "SEASON_WEIGHT = 0.15" "BUDGET_WEIGHT = 0.10"
    by (simp_all add: COLOR_WEIGHT_def STYLE_WEIGHT_def OCCASION_WEIGHT_def SEASON_WEIGHT_def
          BUDGET_WEIGHT_def)
  have c: "0 \<le> score_color_harmony outfit" "score_color_harmony outfit \<le> 1"
    using score_color_harmony_range[of outfit] by simp_all
  have s: "0 \<le> score_style_compatibility outfit" "score_style_compatibility outfit \<le> 1"
    using score_style_compatibility_range[of outfit] by simp_all
  have b: "0 \<le> score_budget self outfit" "score_budget self outfit \<le> 1"
    using score_budget_range[OF assms, of outfit] by simp_all
  have eq: "score_outfit self outfit = Inr total"
    by (simp add: score_outfit_def oc(1) se(1) Let_def total_def)
  have r: "0 \<le> total \<and> total \<le> 1"
    unfolding total_def w
    using weighted_sum_range[of "score_color_harmony outfit" "score_style_compatibility outfit" oc se
        "score_budget self outfit"] c s b oc se by simp
  show ?thesis
    using oc(1) se(1) eq total_def r w weights_sum by blast
qed

text \<open>
  The theorem at the outfit red top, cyan bottom, cyan footwear, black watch, with no
  target and no budget: colour 0.68, style 0.55, the three flat 0.7, total 0.6565.
\<close>

theorem score_outfit_weighted_sum_witness:
  "score_outfit (ex_scorer None) ex_outfit_watch = Inr 0.6565 \<and>
   0.68 * COLOR_WEIGHT + 0.55 * STYLE_WEIGHT + 0.7 * OCCASION_WEIGHT + 0.7 * SEASON_WEIGHT +
     0.7 * BUDGET_WEIGHT = 0.6565"
proof -
  have h: "\<forall>b. OutfitScorer.max_budget (ex_scorer None) = Some b \<longrightarrow> 0 \<le> b"
    by (simp add: ex_scorer_sel)
  from score_outfit_weighted_sum[OF h, of ex_outfit_watch] obtain oc se total where
    r: "score_occasion_fit (ex_scorer None) ex_outfit_watch = Inr oc"
       "score_season_fit (ex_scorer None) ex_outfit_watch = Inr se"
       "score_outfit (ex_scorer None) ex_outfit_watch = Inr total"
       "total = score_color_harmony ex_outfit_watch * COLOR_WEIGHT +
                score_style_compatibility ex_outfit_watch * STYLE_WEIGHT +
                oc * OCCASION_WEIGHT + se * SEASON_WEIGHT +
                score_budget (ex_scorer None) ex_outfit_watch * BUDGET_WEIGHT"
       "COLOR_WEIGHT = 0.30" "STYLE_WEIGHT = 0.25" "OCCASION_WEIGHT = 0.20"
       "SEASON_WEIGHT = 0.15" "BUDGET_WEIGHT = 0.10"
    by blast
  from r(1) r(2) have "oc = 0.7" "se = 0.7" by (simp_all add: score_fits_ex_scorer)
  with r(4) have "total = 0.6565"
    unfolding r(5-9)
    by (simp add: score_color_harmony_ex_outfit_watch score_style_ex_outfit_watch score_budget_ex_none)
  with r(3) show ?thesis unfolding r(5-9) by simp
qed

text \<open>
  Claim C5. Without a budget the budget sub-score is the flat 0.7. With a positive budget
  \<open>b\<close>: a total price equal to \<open>b\<close> scores 1; half of \<open>b\<close> scores 0.9; a ratio below 0.7 scores
  0.9 and a ratio in \<open>[0.7, 1]\<close> scores 1; 20 percent over \<open>b\<close> scores 0.3; and any total over
  \<open>b\<close> scores \<open>max 0.1 (0.5 - min 0.5 (overage / b))\<close>.
\<close>

theorem score_budget_cases:
  "(OutfitScorer.max_budget self = None \<longrightarrow> score_budget self outfit = 0.7) \<and>
   (0 < b \<and> OutfitScorer.max_budget self = Some b \<longrightarrow>
      (total_price outfit = b \<longrightarrow> score_budget self outfit = 1) \<and>
      (total_price outfit = 0.5 * b \<longrightarrow> score_budget self outfit = 0.9) \<and>
      (total_price outfit / b < 0.7 \<longrightarrow> score_budget self outfit = 0.9) \<and>
      (0.7 \<le> total_price outfit / b \<and> total_price outfit / b \<le> 1 \<longrightarrow> score_budget self outfit = 1) \<and>
      (total_price outfit = 1.2 * b \<longrightarrow> score_budget self outfit = 0.3) \<and>
      (b < total_price outfit \<longrightarrow>
         score_budget self outfit = max 0.1 (0.5 - min 0.5 ((total_price outfit - b) / b))))"
proof (intro conjI impI)
  assume "OutfitScorer.max_budget self = None"
  then show "score_budget self outfit = 0.7" by (simp add: score_budget_def)
next
  assume a: "0 < b \<and> OutfitScorer.max_budget self = Some b" and "total_price outfit = b"
  then show "score_budget self outfit = 1"
    using score_budget_within[of b self outfit] by simp
next
  assume a: "0 < b \<and> OutfitScorer.max_budget self = Some b" and h: "total_price outfit = 0.5 * b"
  then have r: "total_price outfit / b = 0.5" by simp
  from a h have "total_price outfit \<le> b" by simp
  then have "score_budget self outfit = (if total_price outfit / b < 0.7 then 0.9 else 1)"
    using a score_budget_within[of b self outfit] by blast
  then show "score_budget self outfit = 0.9"
    unfolding r by simp
next
  assume a: "0 < b \<and> OutfitScorer.max_budget self = Some b" and h: "total_price outfit / b < 0.7"
  then have "total_price outfit < 0.7 * b" by (simp add: pos_divide_less_eq)
  then have "total_price outfit \<le> b" using a by simp
  then show "score_budget self outfit = 0.9"
    using a h score_budget_within[of b self outfit] by simp
next
  assume a: "0 < b \<and> OutfitScorer.max_budget self = Some b"
    and h: "0.7 \<le> total_price outfit / b \<and> total_price outfit / b \<le> 1"
  then have "total_price outfit \<le> b" by (simp add: pos_divide_le_eq)
  then show "score_budget self outfit = 1"
    using a h score_budget_within[of b self outfit] by simp
next
  assume a: "0 < b \<and> OutfitScorer.max_budget self = Some b" and h: "total_price outfit = 1.2 * b"
  then have over: "b < total_price outfit" by simp
  from a h have r: "(total_price outfit - b) / b = 0.2" by (simp add: field_simps)
  have "score_budget self outfit = max 0.1 (0.5 - min 0.5 ((total_price outfit - b) / b))"
    using a over score_budget_over[of b self outfit] by blast
  then show "score_budget self outfit = 0.3"
    unfolding r by simp
next
  assume a: "0 < b \<and> OutfitScorer.max_budget self = Some b" and "b < total_price outfit"
  then show "score_budget self outfit = max 0.1 (0.5 - min 0.5 ((total_price outfit - b) / b))"
    using score_budget_over[of b self outfit] by simp
qed

text \<open>
  The theorem at four scorers: no budget; budget 100 and a total of 100; budget 120 and
  a total of 60; budget 50 and a total of 60.
\<close>

theorem score_budget_cases_witness:
  "score_budget (ex_scorer None) ex_outfit = 0.7 \<and>
   score_budget (ex_scorer (Some 100)) ex_outfit_watch = 1 \<and>
   score_budget (ex_scorer (Some 120)) ex_outfit = 0.9 \<and>
   score_budget (ex_scorer (Some 50)) ex_outfit = 0.3"
proof (intro conjI)
  show "score_budget (ex_scorer None) ex_outfit = 0.7"
    using score_budget_cases[of "ex_scorer None" ex_outfit 1] by (simp add: ex_scorer_sel)
  show "score_budget (ex_scorer (Some 100)) ex_outfit_watch = 1"
    using score_budget_cases[of "ex_scorer (Some 100)" ex_outfit_watch 100]
    by (simp add: ex_scorer_sel ex_total_prices)
  show "score_budget (ex_scorer (Some 120)) ex_outfit = 0.9"
    using score_budget_cases[of "ex_scorer (Some 120)" ex_outfit 120]
    by (simp add: ex_scorer_sel ex_total_prices)
  show "score_budget (ex_scorer (Some 50)) ex_outfit = 0.3"
    using score_budget_cases[of "ex_scorer (Some 50)" ex_outfit 50]
    by (simp add: ex_scorer_sel ex_total_prices)
qed

text \<open>
  Claim C6. When the base product is found, the returned list is the slice
  \<open>[:num_recommendations]\<close> of \<open>ranked\<close>: the generated outfits, scored, in a stable
  descending sort by match score. It has at most \<open>num_recommendations\<close> outfits (a count
  that is not negative, as the data model asks), it is sorted descending by match score,
  outfits of equal score keep their order of generation, and no two outfits share the
  (top, bottom, footwear) id triple \<open>core_ids\<close>.
\<close>

theorem generate_recommendations_ranked:
  assumes "by_id self (base_product_id request) = Some base_product"
  shows "\<exists>outfits.
           fst (generate_recommendations self request g) = Inr outfits \<and>
           outfits = py_take (num_recommendations request) (ranked self request base_product g) \<and>
           (0 \<le> num_recommendations request \<longrightarrow> int (length outfits) \<le> num_recommendations request) \<and>
           sorted_wrt (\<lambda>x y. match_score x \<ge> match_score y) outfits \<and>
           (\<forall>k. filter (\<lambda>x. match_score x = k) (ranked self request base_product g) =
                filter (\<lambda>x. match_score x = k)
                  (map (rescored (make_scorer request))
                     (fst (generate_loop self base_product
                             (filter_candidates self base_product (RecommendationRequest.occasion request)
                                (RecommendationRequest.season request)
                                (RecommendationRequest.max_budget request) (style_preference request))
                             request 0 [] g)))) \<and>
           distinct (map core_ids outfits)"
proof -
  let ?outs = "py_take (num_recommendations request) (ranked self request base_product g)"
  obtain k where k: "?outs = take k (ranked self request base_product g)"
    using py_take_is_take by blast
  have 1: "fst (generate_recommendations self request g) = Inr ?outs"
    using assms by (rule generate_recommendations_found)
  have 2: "0 \<le> num_recommendations request \<longrightarrow> int (length ?outs) \<le> num_recommendations request"
    by (simp add: length_py_take)
  have "sorted (map (\<lambda>x. - match_score x) ?outs)"
    unfolding k using ranked_sorted by (rule sorted_map_take)
  then have 3: "sorted_wrt (\<lambda>x y. match_score x \<ge> match_score y) ?outs"
    by (simp add: sorted_map)
  have 4: "distinct (map core_ids ?outs)"
    unfolding k using ranked_distinct by (rule distinct_map_take)
  show ?thesis
    using 1 2 3 4 ranked_stable by blast
qed

text \<open>
  The theorem at the small catalog with five recommendations asked for: only one core
  triple exists, every later attempt is a duplicate, and one outfit is returned.
\<close>

theorem generate_recommendations_ranked_witness:
  "fst (generate_recommendations (new_recommender ex_catalog)
          ((ex_request ''a1'')\<lparr>num_recommendations := 5\<rparr>) zero_rng) =
     Inr [ex_outfit_scarf\<lparr>match_score := 0.6975\<rparr>] \<and>
   int (length [ex_outfit_scarf\<lparr>match_score := 0.6975\<rparr>]) \<le> 5 \<and>
   sorted_wrt (\<lambda>x y. match_score x \<ge> match_score y) [ex_outfit_scarf\<lparr>match_score := 0.6975\<rparr>] \<and>
   distinct (map core_ids [ex_outfit_scarf\<lparr>match_score := 0.6975\<rparr>])"
proof -
  let ?req = "(ex_request ''a1'')\<lparr>num_recommendations := 5\<rparr>"
  have b: "by_id (new_recommender ex_catalog) (base_product_id ?req) = Some ex_watch"
    by (simp add: ex_request_def by_id_ex_catalog)
  have n: "num_recommendations ?req = 5" by (simp add: ex_request_def)
  from generate_recommendations_ranked[OF b, of zero_rng] obtain outfits where
    r: "fst (generate_recommendations (new_recommender ex_catalog) ?req zero_rng) = Inr outfits"
       "0 \<le> num_recommendations ?req \<longrightarrow> int (length outfits) \<le> num_recommendations ?req"
       "sorted_wrt (\<lambda>x y. match_score x \<ge> match_score y) outfits"
       "distinct (map core_ids outfits)"
    by blast
  have "fst (generate_recommendations (new_recommender ex_catalog) ?req zero_rng) =
          Inr [ex_outfit_scarf\<lparr>match_score := 0.6975\<rparr>]"
    by (rule generate_recommendations_ex_any) simp
  with r(1) have e: "outfits = [ex_outfit_scarf\<lparr>match_score := 0.6975\<rparr>]" by simp
  show ?thesis
    using r unfolding e n by simp
qed

text \<open>
  Claim C7, as the specification states it, fails: an outfit can have no accessory. The
  accessory loop and the fallback both stand behind \<open>if candidates[Category.ACCESSORY]\<close>,
  so without accessory candidates the outfit is built with an empty accessory list.
  Below, the catalog without accessories.
\<close>

theorem outfit_without_accessories:
  "fst (generate_recommendations (new_recommender ex_core_catalog) (ex_request ''t1'') zero_rng) =
     Inr [ex_outfit\<lparr>match_score := 0.6525\<rparr>] \<and>
   length (accessories (ex_outfit\<lparr>match_score := 0.6525\<rparr>)) = 0"
  by (simp add: generate_recommendations_ex_core ex_outfit_def make_outfit_sel)

text \<open>
  Claim C7, amended. Every returned outfit has at most 3 accessories: at least 1 when the
  filtered accessory candidates are not empty, none when they are empty. In a catalog
  whose product ids are unique the accessories have no duplicate id, and none has the id
  of the top, the bottom or the footwear.
\<close>

theorem outfit_accessories_amended:
  assumes "distinct (map id_p catalog)"
    and "by_id (new_recommender catalog) (base_product_id request) = Some base_product"
    and "fst (generate_recommendations (new_recommender catalog) request g) = Inr outfits"
    and "outfit \<in> set outfits"
  shows "length (accessories outfit) \<le> 3 \<and>
         (filter_candidates (new_recommender catalog) base_product
            (RecommendationRequest.occasion request) (RecommendationRequest.season request)
            (RecommendationRequest.max_budget request) (style_preference request) ACCESSORY \<noteq> []
          \<longrightarrow> 1 \<le> length (accessories outfit)) \<and>
         (filter_candidates (new_recommender catalog) base_product
            (RecommendationRequest.occasion request) (RecommendationRequest.season request)
            (RecommendationRequest.max_budget request) (style_preference request) ACCESSORY = []
          \<longrightarrow> accessories outfit = []) \<and>
         distinct (map id_p (accessories outfit)) \<and>
         (\<forall>a \<in> set (accessories outfit).
            id_p a \<noteq> id_p (top_p outfit) \<and> id_p a \<noteq> id_p (bottom outfit) \<and>
            id_p a \<noteq> id_p (footwear outfit))"
proof -
  let ?self = "new_recommender catalog"
  let ?cands = "filter_candidates ?self base_product
            (RecommendationRequest.occasion request) (RecommendationRequest.season request)
            (RecommendationRequest.max_budget request) (style_preference request)"
  from result_outfit_ok[OF assms(2,3,4)] obtain generated where
    gen: "outfit = rescored (make_scorer request) generated" "outfit_ok base_product ?cands generated"
    by blast
  have base: "base_product \<in> set catalog"
    using by_id_new_recommender_Some[OF assms(2)] by simp
  have inj: "inj_on id_p (set catalog)"
    using assms(1) by (simp add: distinct_map)
  have acc: "accessories outfit = accessories generated" and
       t: "top_p outfit = top_p generated" and
       b: "bottom outfit = bottom generated" and
       f: "footwear outfit = footwear generated"
    by (simp_all add: gen(1) rescored_sel)
  have ok: "slot_ok base_product ?cands TOP (top_p generated)"
      "slot_ok base_product ?cands BOTTOM (bottom generated)"
      "slot_ok base_product ?cands FOOTWEAR (footwear generated)"
      "set (accessories generated) \<subseteq> selectable base_product (?cands ACCESSORY)"
      "distinct (accessories generated)"
      "length (accessories generated) \<le> 3"
      "?cands ACCESSORY = [] \<or> accessories generated \<noteq> []"
    using gen(2) unfolding outfit_ok_def by simp_all
  have sub: "set (accessories generated) \<subseteq> set (?cands ACCESSORY)"
    using ok(4) selectable_subset[of base_product "?cands ACCESSORY"] by (rule subset_trans)
  have acc_cat: "a \<in> set catalog \<and> category a = ACCESSORY" if "a \<in> set (accessories generated)" for a
    using set_filter_candidates_new[OF subsetD[OF sub that]] .
  have tc: "top_p generated \<in> set catalog \<and> category (top_p generated) = TOP"
    using base ok(1) by (rule slot_ok_catalog)
  have bc: "bottom generated \<in> set catalog \<and> category (bottom generated) = BOTTOM"
    using base ok(2) by (rule slot_ok_catalog)
  have fc: "footwear generated \<in> set catalog \<and> category (footwear generated) = FOOTWEAR"
    using base ok(3) by (rule slot_ok_catalog)
  have 1: "length (accessories outfit) \<le> 3"
    using ok(6) unfolding acc .
  have 2: "?cands ACCESSORY \<noteq> [] \<longrightarrow> 1 \<le> length (accessories outfit)"
    using ok(7) unfolding acc by (cases "accessories generated") simp_all
  have 3: "?cands ACCESSORY = [] \<longrightarrow> accessories outfit = []"
  proof
    assume "?cands ACCESSORY = []"
    with sub have "set (accessories generated) \<subseteq> {}" by simp
    then show "accessories outfit = []" unfolding acc by simp
  qed
  have "set (accessories generated) \<subseteq> set catalog"
    using acc_cat by blast
  then have "inj_on id_p (set (accessories generated))"
    using inj by (rule inj_on_subset[rotated])
  then have 4: "distinct (map id_p (accessories outfit))"
    unfolding acc using ok(5) by (simp add: distinct_map)
  have 5: "id_p a \<noteq> id_p (top_p outfit) \<and> id_p a \<noteq> id_p (bottom outfit) \<and>
           id_p a \<noteq> id_p (footwear outfit)" if "a \<in> set (accessories outfit)" for a
  proof -
    from that have a: "a \<in> set catalog" "category a = ACCESSORY"
      using acc_cat unfolding acc by simp_all
    have ne: "a \<noteq> top_p generated" "a \<noteq> bottom generated" "a \<noteq> footwear generated"
      using a(2) tc bc fc by auto
    have "id_p a \<noteq> id_p x" if "x \<in> set catalog" "a \<noteq> x" for x
      using inj_onD[OF inj _ a(1) that(1)] that(2) by blast
    then show ?thesis
      unfolding t b f using ne tc bc fc by simp
  qed
  show ?thesis
    using 1 2 3 4 5 by (intro conjI ballI) simp_all
qed

text \<open>
  The theorem at the outfit returned for the watch on the small catalog.
\<close>

theorem outfit_accessories_amended_witness:
  "length (accessories (ex_outfit_scarf\<lparr>match_score := 0.6975\<rparr>)) \<le> 3 \<and>
   1 \<le> length (accessories (ex_outfit_scarf\<lparr>match_score := 0.6975\<rparr>)) \<and>
   distinct (map id_p (accessories (ex_outfit_scarf\<lparr>match_score := 0.6975\<rparr>))) \<and>
   list_all (\<lambda>a. id_p a \<noteq> id_p (top_p (ex_outfit_scarf\<lparr>match_score := 0.6975\<rparr>)) \<and>
                   id_p a \<noteq> id_p (bottom (ex_outfit_scarf\<lparr>match_score := 0.6975\<rparr>)) \<and>
                   id_p a \<noteq> id_p (footwear (ex_outfit_scarf\<lparr>match_score := 0.6975\<rparr>)))
     (accessories (ex_outfit_scarf\<lparr>match_score := 0.6975\<rparr>))"
proof -
  let ?x = "ex_outfit_scarf\<lparr>match_score := 0.6975\<rparr>"
  have b: "by_id (new_recommender ex_catalog) (base_product_id (ex_request ''a1'')) = Some ex_watch"
    by (simp add: ex_request_sel by_id_ex_catalog)
  have m: "?x \<in> set [?x]" by simp
  have c: "filter_candidates (new_recommender ex_catalog) ex_watch
            (RecommendationRequest.occasion (ex_request ''a1''))
            (RecommendationRequest.season (ex_request ''a1''))
            (RecommendationRequest.max_budget (ex_request ''a1''))
            (style_preference (ex_request ''a1'')) ACCESSORY \<noteq> []"
    by (simp add: ex_request_sel ex_candidates)
  from outfit_accessories_amended[OF ex_catalog_distinct b generate_recommendations_ex m] c
  show ?thesis by (simp add: list_all_iff)
qed

text \<open>
  Claim C8. The colour sub-score averages the per-item band scores, adds the neutrality
  bonus and clamps at 1 (\<open>score_color_harmony_eq\<close> above), but the bands of the source
  are open intervals: a hue distance of exactly 180, the complementary colour, falls
  outside \<open>150 < d < 180\<close> and gets 0.50, not the 0.80 of the 150 to 180 band. Below, the
  outfit with a red top and cyan bottom and footwear: both distances are 180, no item is
  neutral, and the sub-score is 0.5.
\<close>

theorem score_color_harmony_at_180:
  "hue_diff (hue (color (bottom ex_outfit))) (hue (color (top_p ex_outfit))) = 180 \<and>
   hue_diff (hue (color (footwear ex_outfit))) (hue (color (top_p ex_outfit))) = 180 \<and>
   accessories ex_outfit = [] \<and>
   item_score 180 = 0.5 \<and>
   neutral_bonus ex_outfit = 0 \<and>
   score_color_harmony ex_outfit = 0.5"
proof (intro conjI)
  show "hue_diff (hue (color (bottom ex_outfit))) (hue (color (top_p ex_outfit))) = 180"
    by (simp add: ex_outfit_def make_outfit_sel ex_colors ex_hues hue_diff_def)
  show "hue_diff (hue (color (footwear ex_outfit))) (hue (color (top_p ex_outfit))) = 180"
    by (simp add: ex_outfit_def make_outfit_sel ex_colors ex_hues hue_diff_def)
  show "accessories ex_outfit = []"
    by (simp add: ex_outfit_def make_outfit_sel)
  show "item_score 180 = 0.5"
    by (simp add: item_score_def)
  show "neutral_bonus ex_outfit = 0"
    unfolding neutral_bonus_eq ex_outfit_def outfit_items_make_outfit
    by (simp add: ex_colors ex_saturations)
  show "score_color_harmony ex_outfit = 0.5"
    by (rule score_color_harmony_ex_outfit)
qed

text \<open>
  Claim C9. For every category the candidate filter keeps exactly the products of that
  category, in catalog order, that satisfy all given constraints: \<open>occasion_ok\<close>,
  \<open>season_ok\<close>, \<open>style_ok\<close> and \<open>budget_ok\<close>, the last being
  \<open>price \<le> (max_budget - base_price) * 1.5\<close>. The result is a list, possibly empty; there
  is no error. A given budget is not 0 (the data model asks for a positive one; the
  source's \<open>if max_budget:\<close> takes 0.0 for no budget).
\<close>

theorem filter_candidates_conjunction:
  assumes "mb \<noteq> Some 0"
  shows "filter_candidates (new_recommender catalog) base_product occ sea mb sp cat =
         filter (\<lambda>p. category p = cat \<and> occasion_ok occ p \<and> season_ok sea p \<and>
                     style_ok sp base_product p \<and> budget_ok mb base_product p) catalog"
  unfolding filter_candidates_eq filter_category_eq[OF assms] by_category_new_recommender
  by (simp add: conj_commute conj_left_commute)

text \<open>
  The theorem at the small catalog: with all four constraints the footwear candidates
  are the boots; with the occasion "party" the top candidates are empty.
\<close>

theorem filter_candidates_conjunction_witness:
  "filter_candidates (new_recommender ex_catalog) ex_watch
     (Some WORK) (Some WINTER) (Some 100) (Some FORMAL) FOOTWEAR = [ex_footwear] \<and>
   filter_candidates (new_recommender ex_catalog) ex_watch
     (Some PARTY) None None None TOP = []"
proof (intro conjI)
  have "Some (100::real) \<noteq> Some 0" by simp
  from filter_candidates_conjunction[OF this, of ex_catalog ex_watch "Some WORK" "Some WINTER" "Some FORMAL" FOOTWEAR]
  show "filter_candidates (new_recommender ex_catalog) ex_watch
     (Some WORK) (Some WINTER) (Some 100) (Some FORMAL) FOOTWEAR = [ex_footwear]"
    by (simp add: ex_catalog_def ex_categories occasion_ok_def season_ok_def style_ok_def
          budget_ok_def ex_occasions ex_seasons ex_styles ex_prices)
next
  have "(None::real option) \<noteq> Some 0" by simp
  from filter_candidates_conjunction[OF this, of ex_catalog ex_watch "Some PARTY" None None TOP]
  show "filter_candidates (new_recommender ex_catalog) ex_watch (Some PARTY) None None None TOP = []"
    by (simp add: ex_catalog_def ex_categories occasion_ok_def season_ok_def style_ok_def
          budget_ok_def ex_occasions)
qed

text \<open>
  Claim C10. With an accessory as base product the returned outfits need not contain it.
  On the small catalog, with the watch as base product, every run (whatever the random
  stream \<open>g\<close> draws) returns the one outfit shirt, jeans, boots, scarf: the three core slots
  are filled from the candidates of their categories, and \<open>_select_item\<close> skips the watch
  among the accessory candidates.
\<close>

theorem base_accessory_omitted:
  "category ex_watch = ACCESSORY \<and>
   by_id (new_recommender ex_catalog) (base_product_id (ex_request ''a1'')) = Some ex_watch \<and>
   fst (generate_recommendations (new_recommender ex_catalog) (ex_request ''a1'') g) =
     Inr [ex_outfit_scarf\<lparr>match_score := 0.6975\<rparr>] \<and>
   ex_watch \<notin> set (outfit_items (ex_outfit_scarf\<lparr>match_score := 0.6975\<rparr>)) \<and>
   id_p ex_watch \<notin> id_p ` set (outfit_items (ex_outfit_scarf\<lparr>match_score := 0.6975\<rparr>))"
proof (intro conjI)
  show "category ex_watch = ACCESSORY" by (simp add: ex_categories)
  show "by_id (new_recommender ex_catalog) (base_product_id (ex_request ''a1'')) = Some ex_watch"
    by (simp add: ex_request_sel by_id_ex_catalog)
  have "(ex_request ''a1'')\<lparr>num_recommendations := 1\<rparr> = ex_request ''a1''"
    by (simp add: ex_request_def)
  then show "fst (generate_recommendations (new_recommender ex_catalog) (ex_request ''a1'') g) =
     Inr [ex_outfit_scarf\<lparr>match_score := 0.6975\<rparr>]"
    using generate_recommendations_ex_any[of 1 g] by simp
  have items: "outfit_items (ex_outfit_scarf\<lparr>match_score := 0.6975\<rparr>) =
                 [ex_top, ex_bottom, ex_footwear, ex_scarf]"
    by (simp add: outfit_items_def ex_outfit_scarf_def make_outfit_def)
  show "id_p ex_watch \<notin> id_p ` set (outfit_items (ex_outfit_scarf\<lparr>match_score := 0.6975\<rparr>))"
    unfolding items by (simp add: ex_ids)
  then show "ex_watch \<notin> set (outfit_items (ex_outfit_scarf\<lparr>match_score := 0.6975\<rparr>))"
    by blast
qed

text \<open>
  The theorem at the stream that always draws 0.
\<close>

theorem base_accessory_omitted_witness:
  "fst (generate_recommendations (new_recommender ex_catalog) (ex_request ''a1'') zero_rng) =
     Inr [ex_outfit_scarf\<lparr>match_score := 0.6975\<rparr>] \<and>
   ex_watch \<notin> set (outfit_items (ex_outfit_scarf\<lparr>match_score := 0.6975\<rparr>))"
  using base_accessory_omitted[of zero_rng] by simp

end
